theory Spec2Isabelle
  imports Main
begin

section \<open>Python strings and the POSIX path functions used by server.py\<close>

text \<open>
  A Python \<open>str\<close> is modelled as a \<open>string\<close>, one \<open>char\<close> per code point (code points
  below 256; the separators, dots, digits and signs the code looks at are all ASCII).
  \<open>startswith\<close>, \<open>endswith\<close>, \<open>lstrip\<close>, \<open>split\<close>, \<open>join\<close> and the substring test
  \<open>x in s\<close> are the methods of \<open>str\<close> that server.py and \<open>posixpath\<close> call.
\<close>

definition startswith :: "string \<Rightarrow> string \<Rightarrow> bool" where
  "startswith s p = (take (length p) s = p)"

definition endswith :: "string \<Rightarrow> string \<Rightarrow> bool" where
  "endswith s p = (drop (length s - length p) s = p \<and> length p \<le> length s)"

definition lstrip_slash :: "string \<Rightarrow> string" where
  "lstrip_slash s = dropWhile (\<lambda>c. c = CHR ''/'') s"

fun py_in :: "string \<Rightarrow> string \<Rightarrow> bool" where
  "py_in x [] = (x = [])"
| "py_in x (c # cs) = (startswith (c # cs) x \<or> py_in x cs)"

fun split_sep :: "string \<Rightarrow> string list" where
  "split_sep [] = [[]]"
| "split_sep (c # cs) =
     (if c = CHR ''/'' then [] # split_sep cs
      else (case split_sep cs of
              [] \<Rightarrow> [[c]]
            | w # ws \<Rightarrow> (c # w) # ws))"

fun sep_join :: "string list \<Rightarrow> string" where
  "sep_join [] = []"
| "sep_join [x] = x"
| "sep_join (x # y # ys) = x @ ''/'' @ sep_join (y # ys)"

text \<open>\<open>posixpath.isabs\<close>, \<open>posixpath.join\<close> (two arguments, as server.py calls it).\<close>

definition isabs :: "string \<Rightarrow> bool" where
  "isabs s = startswith s ''/''"

definition join :: "string \<Rightarrow> string \<Rightarrow> string" where
  "join a b =
     (if startswith b ''/'' then b
      else if a = [] \<or> endswith a ''/'' then a @ b
      else a @ ''/'' @ b)"

text \<open>
  \<open>posixpath.normpath\<close>. \<open>norm_step\<close> is the body of its loop over the components:
  \<open>new_comps\<close> is the list being built, \<open>append\<close> adds at the end and \<open>pop\<close> removes
  the last element.
\<close>

definition initial_slashes_of :: "string \<Rightarrow> nat" where
  "initial_slashes_of path =
     (if startswith path ''/'' then
        (if startswith path ''//'' \<and> \<not> startswith path ''///'' then 2 else 1)
      else 0)"

definition norm_step :: "nat \<Rightarrow> string list \<Rightarrow> string \<Rightarrow> string list" where
  "norm_step initial_slashes new_comps part =
     (if part = [] \<or> part = ''.'' then new_comps
      else if part \<noteq> ''..'' \<or> (initial_slashes = 0 \<and> new_comps = [])
              \<or> (new_comps \<noteq> [] \<and> last new_comps = ''..'')
        then new_comps @ [part]
      else if new_comps \<noteq> [] then butlast new_comps
      else new_comps)"

definition normpath :: "string \<Rightarrow> string" where
  "normpath path =
     (if path = [] then ''.''
      else
        (let initial_slashes = initial_slashes_of path;
             comps = foldl (norm_step initial_slashes) [] (split_sep path);
             p = sep_join comps;
             p' = (if initial_slashes \<noteq> 0
                   then replicate initial_slashes (CHR ''/'') @ p else p)
         in if p' = [] then ''.'' else p'))"

text \<open>
  \<open>posixpath.abspath\<close>; the process working directory \<open>os.getcwd()\<close> is the
  parameter \<open>cwd\<close>.
\<close>

definition abspath :: "string \<Rightarrow> string \<Rightarrow> string" where
  "abspath cwd path = normpath (if \<not> isabs path then join cwd path else path)"

section \<open>Python's \<open>int(str)\<close>\<close>

text \<open>
  \<open>int(s)\<close> on a string: surrounding whitespace is skipped, then an optional sign, then
  decimal digits, single underscores allowed between two digits; anything else raises
  \<open>ValueError\<close> (\<open>None\<close> here). Whitespace is tab, line feed, vertical tab, form feed,
  carriage return, space and, of the code points below 256, NEL (0x85) and NBSP (0xA0).
  There is no limit on the number of digits, as in Python 3.6, the version server.py
  names.
\<close>

definition is_space :: "char \<Rightarrow> bool" where
  "is_space c = ((of_char c :: nat) \<in> {9, 10, 11, 12, 13, 32, 133, 160})"

definition is_digit :: "char \<Rightarrow> bool" where
  "is_digit c = (48 \<le> (of_char c :: nat) \<and> (of_char c :: nat) \<le> 57)"

definition strip :: "string \<Rightarrow> string" where
  "strip s = rev (dropWhile is_space (rev (dropWhile is_space s)))"

fun digits_ok :: "string \<Rightarrow> bool" where
  "digits_ok [] = False"
| "digits_ok [c] = is_digit c"
| "digits_ok (c # d # cs) =
     (is_digit c \<and> (if d = CHR ''_'' then digits_ok cs else digits_ok (d # cs)))"

definition digits_value :: "string \<Rightarrow> int" where
  "digits_value s =
     foldl (\<lambda>acc c. acc * 10 + (int (of_char c) - 48)) 0 (filter is_digit s)"

definition py_int :: "string \<Rightarrow> int option" where
  "py_int s =
     (case strip s of
        [] \<Rightarrow> None
      | c # cs \<Rightarrow>
          (if c = CHR ''-'' then (if digits_ok cs then Some (- digits_value cs) else None)
           else if c = CHR ''+'' then (if digits_ok cs then Some (digits_value cs) else None)
           else (if digits_ok (c # cs) then Some (digits_value (c # cs)) else None)))"

section \<open>Data model: exceptions, requests, responses, the observable trace\<close>

text \<open>
  \<open>exn\<close> stands for the instances of Python's \<open>Exception\<close> that the collaborators and
  the operating system raise: these are what \<open>except Exception\<close> catches.
  \<open>FileNotFoundError\<close> is the one class server.py names.
\<close>

datatype exn =
    FileNotFoundError
  | IsADirectoryError
  | NotADirectoryError
  | PermissionError
  | ConnectionError
  | BrokenPipeError
  | ParseError
  | OtherException string

text \<open>
  The Request collaborator: its method (\<open>req_method\<close>), \<open>path\<close>, the header mapping
  (looked up with \<open>headers.get(name, default)\<close>) and the body stream, given by what
  \<open>body.read(n)\<close> does: it returns bytes or raises.
\<close>

record request =
  req_method :: string
  path :: string
  headers :: "string \<rightharpoonup> string"
  body_read :: "int \<Rightarrow> exn + string"

definition headers_get :: "(string \<rightharpoonup> string) \<Rightarrow> string \<Rightarrow> string \<Rightarrow> string" where
  "headers_get h name dflt = (case h name of None \<Rightarrow> dflt | Some v \<Rightarrow> v)"

text \<open>
  The Response collaborator: \<open>Response.from_status_code(n)\<close> is the canned status-only
  response; \<open>Response(status=..., body=f)\<close> with the headers added to it carries the open
  file handle \<open>f\<close> (the path it was opened at and the contents it streams).
\<close>

datatype file_handle = FileHandle string string

datatype response =
    from_status_code nat
  | Response string "(string \<times> string) list" file_handle

datatype log_line =
    NewConnection "string \<times> int"
  | RequestBody string
  | FailedToParse exn
  | UnhandledError exn

text \<open>
  What one run does to the world, in order: every call of \<open>print\<close>, the call of
  \<open>Request.from_socket\<close>, every call of \<open>send\<close> on the client socket, every
  \<open>body.read\<close>, every \<open>open\<close> (successful or not), the closing of a file handle and of
  the socket, and \<open>task_done\<close> on the queue. \<open>Print\<close> and \<open>Send\<close> record the call, whether
  it returns or raises.
\<close>

datatype event =
    Print log_line
  | FromSocket
  | Send response
  | BodyRead int
  | Opened string
  | OpenFailed string exn
  | Closed string
  | SockClose
  | TaskDone

fun is_Print :: "event \<Rightarrow> bool" where
  "is_Print (Print l) = True"
| "is_Print e = False"

fun is_Send :: "event \<Rightarrow> bool" where
  "is_Send (Send r) = True"
| "is_Send e = False"

fun is_file_access :: "event \<Rightarrow> bool" where
  "is_file_access (Opened p) = True"
| "is_file_access (OpenFailed p e) = True"
| "is_file_access (Closed p) = True"
| "is_file_access e = False"

fun is_BodyRead :: "event \<Rightarrow> bool" where
  "is_BodyRead (BodyRead n) = True"
| "is_BodyRead e = False"

text \<open>A response other than the interim one is sent.\<close>

fun is_final_send :: "event \<Rightarrow> bool" where
  "is_final_send (Send r) = (r \<noteq> from_status_code 100)"
| "is_final_send e = False"

text \<open>
  The events that can take place inside the \<open>with client_sock\<close> block of
  \<open>handle_client\<close>: all but the close of the socket and \<open>task_done\<close>.
\<close>

fun block_event :: "event \<Rightarrow> bool" where
  "block_event SockClose = False"
| "block_event TaskDone = False"
| "block_event e = True"

text \<open>
  The accepted connection and what happens while it is handled: the peer address, what
  \<open>Request.from_socket\<close> yields on this socket, for the k-th \<open>send\<close> on the socket
  (counted from 0) the exception it raises, if any, and for the k-th \<open>print\<close> made while
  this connection is handled the exception it raises, if any (standard output may be a
  closed pipe).
\<close>

record conn =
  client_addr :: "string \<times> int"
  from_socket :: "exn + request"
  send_raises :: "nat \<Rightarrow> exn option"
  print_raises :: "nat \<Rightarrow> exn option"

text \<open>
  The process environment: the working directory, what \<open>open(p, "rb")\<close> does at each
  path (a handle on the file's contents, or the exception raised) and
  \<open>mimetypes.guess_type\<close>.
\<close>

record world =
  cwd :: string
  open_rb :: "string \<Rightarrow> exn + string"
  guess_type :: "string \<Rightarrow> string option \<times> string option"

type_synonym outcome = "(exn + unit) \<times> event list"

text \<open>\<open>response.send(sock)\<close>: the send is recorded, then it returns or raises.\<close>

definition send :: "conn \<Rightarrow> response \<Rightarrow> event list \<Rightarrow> outcome" where
  "send c r tr =
     (case send_raises c (length (filter is_Send tr)) of
        None \<Rightarrow> (Inr (), tr @ [Send r])
      | Some e \<Rightarrow> (Inl e, tr @ [Send r]))"

text \<open>\<open>print(...)\<close>: the call is recorded, then it returns or raises.\<close>

definition print_line :: "conn \<Rightarrow> log_line \<Rightarrow> event list \<Rightarrow> outcome" where
  "print_line c l tr =
     (case print_raises c (length (filter is_Print tr)) of
        None \<Rightarrow> (Inr (), tr @ [Print l])
      | Some e \<Rightarrow> (Inl e, tr @ [Print l]))"

text \<open>Standard output stays open: no \<open>print\<close> raises while the connection is handled.\<close>

definition stdout_open :: "conn \<Rightarrow> bool" where
  "stdout_open c = (\<forall>k. print_raises c k = None)"

section \<open>serve_file\<close>

definition content_type_of :: "world \<Rightarrow> string \<Rightarrow> string" where
  "content_type_of w abs_path =
     (case guess_type w abs_path of
        (content_type, encoding) \<Rightarrow>
          (let content_type =
                 (case content_type of None \<Rightarrow> ''application/octet-stream'' | Some t \<Rightarrow> t)
           in case encoding of
                None \<Rightarrow> content_type
              | Some enc \<Rightarrow> content_type @ ''; charset='' @ enc))"

text \<open>
  The body of the \<open>try\<close>: \<open>with open(abspath, "rb") as f\<close> builds and sends the 200
  response; leaving the \<open>with\<close> block closes \<open>f\<close>, also when \<open>send\<close> raises.
\<close>

definition open_and_send :: "world \<Rightarrow> conn \<Rightarrow> string \<Rightarrow> event list \<Rightarrow> outcome" where
  "open_and_send w c abs_path tr =
     (case open_rb w abs_path of
        Inl e \<Rightarrow> (Inl e, tr @ [OpenFailed abs_path e])
      | Inr f \<Rightarrow>
          (case send c (Response ''200 OK''
                          [(''content-type'', content_type_of w abs_path)]
                          (FileHandle abs_path f))
                  (tr @ [Opened abs_path]) of
             (r, tr') \<Rightarrow> (r, tr' @ [Closed abs_path])))"

definition candidate :: "string \<Rightarrow> string \<Rightarrow> string" where
  "candidate root_path p =
     normpath (join root_path (lstrip_slash (if p = ''/'' then ''/index.html'' else p)))"

definition serve_file :: "world \<Rightarrow> conn \<Rightarrow> string \<Rightarrow> string \<Rightarrow> event list \<Rightarrow> outcome" where
  "serve_file w c p root tr =
     (let root_path = abspath (cwd w) root;
          abs_path = candidate root_path p
      in if \<not> startswith abs_path root_path then send c (from_status_code 404) tr
         else (case open_and_send w c abs_path tr of
                 (Inl e, tr') \<Rightarrow>
                   (if e = FileNotFoundError then send c (from_status_code 404) tr'
                    else (Inl e, tr'))
               | (Inr u, tr') \<Rightarrow> (Inr u, tr')))"

section \<open>HTTPWorker.handle_client\<close>

definition wants_continue :: "request \<Rightarrow> bool" where
  "wants_continue req = py_in ''100-continue'' (headers_get (headers req) ''expect'' [])"

definition content_len :: "request \<Rightarrow> int" where
  "content_len req =
     (case py_int (headers_get (headers req) ''content-length'' ''0'') of
        None \<Rightarrow> 0
      | Some n \<Rightarrow> n)"

text \<open>Lines 97 to 101: the method check and the delegation to \<open>serve_file\<close>.\<close>

definition dispatch :: "world \<Rightarrow> conn \<Rightarrow> request \<Rightarrow> event list \<Rightarrow> outcome" where
  "dispatch w c req tr =
     (if req_method req \<noteq> ''GET'' then send c (from_status_code 405) tr
      else serve_file w c (path req) ''www'' tr)"

text \<open>Lines 88 to 95: the declared length and the read of the body.\<close>

definition drain_body :: "conn \<Rightarrow> request \<Rightarrow> event list \<Rightarrow> outcome" where
  "drain_body c req tr =
     (if content_len req \<noteq> 0 then
        (case body_read req (content_len req) of
           Inl e \<Rightarrow> (Inl e, tr @ [BodyRead (content_len req)])
         | Inr b \<Rightarrow> print_line c (RequestBody b) (tr @ [BodyRead (content_len req)]))
      else (Inr (), tr))"

text \<open>Lines 85 and 86: the interim response.\<close>

definition interim :: "conn \<Rightarrow> request \<Rightarrow> event list \<Rightarrow> outcome" where
  "interim c req tr =
     (if wants_continue req then send c (from_status_code 100) tr else (Inr (), tr))"

text \<open>The body of the \<open>try\<close> of \<open>handle_client\<close>, lines 84 to 101.\<close>

definition handle_try :: "world \<Rightarrow> conn \<Rightarrow> event list \<Rightarrow> outcome" where
  "handle_try w c tr =
     (case from_socket c of
        Inl e \<Rightarrow> (Inl e, tr @ [FromSocket])
      | Inr req \<Rightarrow>
          (case interim c req (tr @ [FromSocket]) of
             (Inl e, tr1) \<Rightarrow> (Inl e, tr1)
           | (Inr u, tr1) \<Rightarrow>
               (case drain_body c req tr1 of
                  (Inl e, tr2) \<Rightarrow> (Inl e, tr2)
                | (Inr u, tr2) \<Rightarrow> dispatch w c req tr2)))"

text \<open>
  The \<open>except Exception\<close> of \<open>handle_client\<close>, lines 102 to 104: the line printed, then
  the 404 response; when the \<open>print\<close> raises nothing is sent.
\<close>

definition handle_except :: "conn \<Rightarrow> exn \<Rightarrow> event list \<Rightarrow> outcome" where
  "handle_except c e tr =
     (case print_line c (FailedToParse e) tr of
        (Inl e', tr') \<Rightarrow> (Inl e', tr')
      | (Inr u, tr') \<Rightarrow> send c (from_status_code 404) tr')"

text \<open>
  \<open>handle_client\<close>: the \<open>print\<close> of line 81 stands before \<open>with client_sock\<close>, so when
  it raises the function is left at once. Otherwise the \<open>with\<close> block holds the
  \<open>try\<close>/\<open>except Exception\<close>, and leaving the block closes the socket, whether the block
  returned or raised.
\<close>

definition handle_client :: "world \<Rightarrow> conn \<Rightarrow> outcome" where
  "handle_client w c =
     (case print_line c (NewConnection (client_addr c)) [] of
        (Inl e, tr) \<Rightarrow> (Inl e, tr)
      | (Inr u, tr) \<Rightarrow>
          (case (case handle_try w c tr of
                   (Inl e, tr1) \<Rightarrow> handle_except c e tr1
                 | (Inr u, tr1) \<Rightarrow> (Inr u, tr1)) of
             (r, tr2) \<Rightarrow> (r, tr2 @ [SockClose])))"

text \<open>
  What the handler has done when it reaches the method check of line 97, after the
  connection line: the parse, the interim response if one was asked for, and the read of
  the body with the line printed for it. It reaches line 97 when none of these raised
  (\<open>reaches_method_check\<close>).
\<close>

definition preamble :: "request \<Rightarrow> event list" where
  "preamble req =
     FromSocket
     # (if wants_continue req then [Send (from_status_code 100)] else [])
     @ (if content_len req \<noteq> 0 then
          BodyRead (content_len req)
          # (case body_read req (content_len req) of
               Inl e \<Rightarrow> []
             | Inr b \<Rightarrow> [Print (RequestBody b)])
        else [])"

text \<open>
  The handler gets past the interim response when there is none to send or its \<open>send\<close>
  returns, and past the read of the body when there is none to read or the read and
  the \<open>print\<close> of line 95 return.
\<close>

definition reaches_body_step :: "conn \<Rightarrow> request \<Rightarrow> bool" where
  "reaches_body_step c req = (wants_continue req \<longrightarrow> send_raises c 0 = None)"

definition reaches_method_check :: "conn \<Rightarrow> request \<Rightarrow> bool" where
  "reaches_method_check c req =
     (reaches_body_step c req
      \<and> (content_len req \<noteq> 0 \<longrightarrow>
            (case body_read req (content_len req) of Inl e \<Rightarrow> False | Inr b \<Rightarrow> True)
            \<and> print_raises c 1 = None))"

text \<open>
  The same request without its \<open>expect\<close> header, and the connection as it is once the
  interim response has been sent: it delivers that request, and its next \<open>send\<close> is the
  second of the original connection.
\<close>

definition without_expect :: "request \<Rightarrow> request" where
  "without_expect req = req\<lparr>headers := (headers req)(''expect'' := None)\<rparr>"

definition after_interim :: "conn \<Rightarrow> request \<Rightarrow> conn" where
  "after_interim c req =
     c\<lparr>from_socket := Inr (without_expect req),
       send_raises := (\<lambda>k. send_raises c (Suc k))\<rparr>"

text \<open>
  A trace of \<open>handle_client\<close> with the interim response put in its place, after the
  connection line and the parse.
\<close>

definition interim_sent :: "event list \<Rightarrow> event list" where
  "interim_sent tr = take 2 tr @ Send (from_status_code 100) # drop 2 tr"

section \<open>HTTPWorker\<close>

record worker =
  running :: bool

definition HTTPWorker_init :: worker where
  "HTTPWorker_init = \<lparr>running = True\<rparr>"

definition stop :: "worker \<Rightarrow> worker" where
  "stop wk = wk\<lparr>running := False\<rparr>"

text \<open>
  What the worker thread meets, in order, while it loops: \<open>Got c\<close>, the
  \<open>get(timeout=1)\<close> of this iteration returns the connection \<open>c\<close>; \<open>Empty\<close>, it times out;
  \<open>StopCalled\<close>, another thread calls \<open>stop()\<close> before the next test of the flag.
  \<open>Waiting\<close> is the state of a worker that is still in its loop when the schedule ends,
  \<open>Exited\<close> that of a worker whose loop has ended on the flag, \<open>Died e\<close> that of a worker
  whose \<open>run\<close> was left by the exception \<open>e\<close>, which ends the thread.
\<close>

datatype tick = Got conn | Empty | StopCalled

datatype run_state = Exited | Waiting | Died exn

fun is_Got :: "tick \<Rightarrow> bool" where
  "is_Got (Got c) = True"
| "is_Got t = False"

text \<open>
  One iteration with a dequeued connection, lines 68 to 74: the exception of
  \<open>handle_client\<close> is caught and printed, and \<open>task_done\<close> runs in the \<open>finally\<close> on
  every path. When the \<open>print\<close> of line 71 raises, that exception leaves the iteration
  after \<open>task_done\<close>.
\<close>

definition serve_one :: "world \<Rightarrow> conn \<Rightarrow> outcome" where
  "serve_one w c =
     (case handle_client w c of
        (Inl e, tr) \<Rightarrow>
          (case print_line c (UnhandledError e) tr of (r, tr') \<Rightarrow> (r, tr' @ [TaskDone]))
      | (Inr u, tr) \<Rightarrow> (Inr u, tr @ [TaskDone]))"

fun while_running :: "world \<Rightarrow> worker \<Rightarrow> tick list \<Rightarrow> event list \<Rightarrow> run_state \<times> worker \<times> event list" where
  "while_running w wk [] tr = (if running wk then Waiting else Exited, wk, tr)"
| "while_running w wk (StopCalled # ts) tr = while_running w (stop wk) ts tr"
| "while_running w wk (Empty # ts) tr =
     (if running wk then while_running w wk ts tr else (Exited, wk, tr))"
| "while_running w wk (Got c # ts) tr =
     (if running wk then
        (case serve_one w c of
           (Inl e, tr') \<Rightarrow> (Died e, wk, tr @ tr')
         | (Inr u, tr') \<Rightarrow> while_running w wk ts (tr @ tr'))
      else (Exited, wk, tr))"

definition run :: "world \<Rightarrow> worker \<Rightarrow> tick list \<Rightarrow> run_state \<times> worker \<times> event list" where
  "run w wk ts = while_running w (wk\<lparr>running := True\<rparr>) ts []"

text \<open>The events one tick of the schedule adds while the worker is running.\<close>

fun tick_events :: "world \<Rightarrow> tick \<Rightarrow> event list" where
  "tick_events w (Got c) = snd (serve_one w c)"
| "tick_events w t = []"

text \<open>No \<open>print\<close> raises while the connections of the schedule are handled.\<close>

fun tick_stdout_open :: "tick \<Rightarrow> bool" where
  "tick_stdout_open (Got c) = stdout_open c"
| "tick_stdout_open t = True"

section \<open>The connection queue and HTTPServer\<close>

text \<open>
  Python's \<open>queue.Queue(maxsize)\<close>: a FIFO; \<open>maxsize \<le> 0\<close> means no bound. \<open>put(item)\<close>
  with the default \<open>block=True, timeout=None\<close> waits while the queue holds \<open>maxsize\<close>
  items (\<open>Blocks\<close>), and otherwise appends the item; it has no other outcome.
  \<open>get(timeout=1)\<close> takes the oldest item, or raises \<open>Empty\<close> (\<open>None\<close>).
\<close>

record 'a queue =
  maxsize :: int
  items :: "'a list"
  unfinished_tasks :: int

datatype 'a blocking = Blocks | Returns 'a

definition Queue :: "int \<Rightarrow> 'a queue" where
  "Queue n = \<lparr>maxsize = n, items = [], unfinished_tasks = 0\<rparr>"

definition put :: "'a queue \<Rightarrow> 'a \<Rightarrow> 'a queue blocking" where
  "put q x =
     (if 0 < maxsize q \<and> maxsize q \<le> int (length (items q)) then Blocks
      else Returns (q\<lparr>items := items q @ [x], unfinished_tasks := unfinished_tasks q + 1\<rparr>))"

definition get :: "'a queue \<Rightarrow> ('a \<times> 'a queue) option" where
  "get q = (case items q of [] \<Rightarrow> None | x # xs \<Rightarrow> Some (x, q\<lparr>items := xs\<rparr>))"

record server =
  host :: string
  port :: int
  worker_count :: int
  worker_backlog :: int
  connection_queue :: "conn queue"

definition HTTPServer_init :: "string \<Rightarrow> int \<Rightarrow> int \<Rightarrow> server" where
  "HTTPServer_init h p n =
     \<lparr>host = h, port = p, worker_count = n, worker_backlog = n * 8,
      connection_queue = Queue (n * 8)\<rparr>"

text \<open>
  The accept loop of \<open>start\<close> beside the workers, as a sequence of steps on the shared
  queue. \<open>Accept c\<close>: \<open>accept()\<close> returns \<open>c\<close> and the loop calls \<open>put\<close>; while a \<open>put\<close>
  is blocked the loop accepts nothing. \<open>AcceptRaises e\<close>: \<open>accept()\<close> raises an exception
  that is not \<open>KeyboardInterrupt\<close>; it leaves \<open>start\<close>, which ends the loop. \<open>WorkerGet\<close>:
  a worker's \<open>get\<close>; it makes room, so a blocked \<open>put\<close> completes. \<open>Interrupt\<close>:
  \<open>KeyboardInterrupt\<close> ends the loop; when it arrives while \<open>put\<close> is blocked, the
  \<open>put\<close> is given up and its connection is never enqueued. \<open>AcceptInterrupted c\<close>:
  \<open>accept()\<close> returns \<open>c\<close> and \<open>KeyboardInterrupt\<close> arrives before \<open>put\<close> has stored it.
  \<open>accepted\<close> lists every connection \<open>accept()\<close> has returned, \<open>taken\<close> those the workers
  have dequeued, \<open>blocked\<close> the connection whose \<open>put\<close> has not returned, \<open>abandoned\<close>
  the connection of a \<open>put\<close> that was given up.
\<close>

datatype step = Accept conn | AcceptRaises exn | AcceptInterrupted conn | WorkerGet | Interrupt

record accept_state =
  shared :: "conn queue"
  blocked :: "conn option"
  accepted :: "conn list"
  taken :: "conn list"
  abandoned :: "conn list"
  ended :: bool

definition start_state :: "server \<Rightarrow> accept_state" where
  "start_state srv =
     \<lparr>shared = connection_queue srv, blocked = None, accepted = [], taken = [],
      abandoned = [], ended = False\<rparr>"

fun accept_step :: "accept_state \<Rightarrow> step \<Rightarrow> accept_state" where
  "accept_step s (Accept c) =
     (if ended s then s
      else (case blocked s of
              Some b \<Rightarrow> s
            | None \<Rightarrow>
                (case put (shared s) c of
                   Blocks \<Rightarrow> s\<lparr>blocked := Some c, accepted := accepted s @ [c]\<rparr>
                 | Returns q \<Rightarrow> s\<lparr>shared := q, accepted := accepted s @ [c]\<rparr>)))"
| "accept_step s (AcceptRaises e) =
     (case blocked s of Some b \<Rightarrow> s | None \<Rightarrow> s\<lparr>ended := True\<rparr>)"
| "accept_step s (AcceptInterrupted c) =
     (if ended s then s
      else (case blocked s of
              Some b \<Rightarrow> s
            | None \<Rightarrow> s\<lparr>ended := True, accepted := accepted s @ [c], abandoned := [c]\<rparr>))"
| "accept_step s WorkerGet =
     (case get (shared s) of
        None \<Rightarrow> s
      | Some (x, q) \<Rightarrow>
          (case blocked s of
             None \<Rightarrow> s\<lparr>shared := q, taken := taken s @ [x]\<rparr>
           | Some b \<Rightarrow>
               (case put q b of
                  Blocks \<Rightarrow> s\<lparr>shared := q, taken := taken s @ [x]\<rparr>
                | Returns q' \<Rightarrow>
                    s\<lparr>shared := q', blocked := None, taken := taken s @ [x]\<rparr>)))"
| "accept_step s Interrupt =
     (if ended s then s
      else s\<lparr>ended := True, blocked := None,
             abandoned := (case blocked s of None \<Rightarrow> [] | Some b \<Rightarrow> [b])\<rparr>)"

definition accept_loop :: "server \<Rightarrow> step list \<Rightarrow> accept_state" where
  "accept_loop srv steps = foldl accept_step (start_state srv) steps"

definition pending :: "accept_state \<Rightarrow> conn list" where
  "pending s = items (shared s) @ (case blocked s of None \<Rightarrow> [] | Some b \<Rightarrow> [b])"

text \<open>
  The invariant of the accept loop on a queue of capacity \<open>cap\<close>: the queue keeps its
  bound and never holds more than \<open>cap\<close> items; the accepted connections are the dequeued
  ones, the pending ones and the abandoned one, in the order of their arrival; a \<open>put\<close>
  is blocked only on a full queue and only while the loop runs; and a connection is
  abandoned only by the end of the loop.
\<close>

definition queue_inv :: "int \<Rightarrow> accept_state \<Rightarrow> bool" where
  "queue_inv cap s =
     (maxsize (shared s) = cap
      \<and> int (length (items (shared s))) \<le> cap
      \<and> accepted s = taken s @ pending s @ abandoned s
      \<and> (blocked s = None \<or> (int (length (items (shared s))) = cap \<and> \<not> ended s))
      \<and> (abandoned s = [] \<or> ended s))"

section \<open>Concrete inputs\<close>

text \<open>
  A small file system: directories, readable files with their contents, and files the
  process may not read. \<open>fs_open\<close> is \<open>open(p, "rb")\<close> on it for an absolute path or one
  relative to the directory \<open>cwd\<close>: the path is walked component by component; a missing
  name gives \<open>FileNotFoundError\<close>, a step through a file \<open>NotADirectoryError\<close>, a directory
  at the end \<open>IsADirectoryError\<close>, an unreadable file \<open>PermissionError\<close>.
\<close>

datatype node = File string | Unreadable | Dir "(string \<times> node) list"

fun walk :: "node \<Rightarrow> node list \<Rightarrow> string list \<Rightarrow> exn + node" where
  "walk n up [] = Inr n"
| "walk (File f) up (name # names) = Inl NotADirectoryError"
| "walk Unreadable up (name # names) = Inl NotADirectoryError"
| "walk (Dir entries) up (name # names) =
     (if name = [] \<or> name = ''.'' then walk (Dir entries) up names
      else if name = ''..'' then
        (case up of [] \<Rightarrow> walk (Dir entries) [] names | d # ds \<Rightarrow> walk d ds names)
      else (case map_of entries name of
              None \<Rightarrow> Inl FileNotFoundError
            | Some n \<Rightarrow> walk n (Dir entries # up) names))"

definition fs_open :: "node \<Rightarrow> string \<Rightarrow> string \<Rightarrow> exn + string" where
  "fs_open root_dir dir p =
     (if p = [] then Inl FileNotFoundError
      else (case walk root_dir [] (split_sep (if isabs p then p else join dir p)) of
              Inl e \<Rightarrow> Inl e
            | Inr (File f) \<Rightarrow> Inr f
            | Inr Unreadable \<Rightarrow> Inl PermissionError
            | Inr (Dir entries) \<Rightarrow> Inl IsADirectoryError))"

text \<open>
  A document root \<open>/srv/www\<close> holding \<open>index.html\<close> and an unreadable
  \<open>private.txt\<close>, beside a directory
  \<open>/srv/www-secret\<close> holding the file \<open>x\<close>; the server runs in \<open>/srv\<close>.
\<close>

definition example_fs :: node where
  "example_fs =
     Dir [(''srv'',
           Dir [(''www'', Dir [(''index.html'', File ''<h1>hello</h1>''),
                               (''private.txt'', Unreadable)]),
                (''www-secret'', Dir [(''x'', File ''secret'')])])]"

definition example_world :: world where
  "example_world =
     \<lparr>cwd = ''/srv'',
      open_rb = fs_open example_fs ''/srv'',
      guess_type = (\<lambda>p. if endswith p ''.html'' then (Some ''text/html'', None)
                        else (None, None))\<rparr>"

definition example_request :: "string \<Rightarrow> string \<Rightarrow> (string \<times> string) list \<Rightarrow> request" where
  "example_request m p hs =
     \<lparr>req_method = m, path = p, headers = map_of hs,
      body_read = (\<lambda>n. Inr (replicate (nat n) (CHR ''b'')))\<rparr>"

text \<open>A connection on which every \<open>send\<close> and every \<open>print\<close> returns.\<close>

definition example_conn :: "exn + request \<Rightarrow> conn" where
  "example_conn r =
     \<lparr>client_addr = (''127.0.0.1'', 50000), from_socket = r, send_raises = (\<lambda>k. None),
      print_raises = (\<lambda>k. None)\<rparr>"

text \<open>The connections of peers told apart by their port.\<close>

definition peer :: "int \<Rightarrow> conn" where
  "peer k = (example_conn (Inl ParseError))\<lparr>client_addr := (''127.0.0.1'', 50000 + k)\<rparr>"


text \<open>A connection whose first \<open>send\<close> fails.\<close>

definition broken_conn :: "exn + request \<Rightarrow> conn" where
  "broken_conn r =
     (example_conn r)\<lparr>send_raises := (\<lambda>k. if k = 0 then Some ConnectionError else None)\<rparr>"

text \<open>
  Connections handled while standard output is a pipe whose reader has gone: from the
  first \<open>print\<close> on (\<open>no_stdout_conn\<close>), or after the first line was written
  (\<open>lost_stdout_conn\<close>).
\<close>

definition no_stdout_conn :: "exn + request \<Rightarrow> conn" where
  "no_stdout_conn r = (example_conn r)\<lparr>print_raises := (\<lambda>k. Some BrokenPipeError)\<rparr>"

definition lost_stdout_conn :: "exn + request \<Rightarrow> conn" where
  "lost_stdout_conn r =
     (example_conn r)\<lparr>print_raises := (\<lambda>k. if k = 0 then None else Some BrokenPipeError)\<rparr>"

definition hello_response :: response where
  "hello_response =
     Response ''200 OK'' [(''content-type'', ''text/html'')]
       (FileHandle ''/srv/www/index.html'' ''<h1>hello</h1>'')"

section \<open>Facts about the string and path functions\<close>

lemma normpath_example_1: "normpath ''/srv/www/../www-secret/x'' = ''/srv/www-secret/x''"
  by code_simp

section \<open>The steps of the handler\<close>

lemma send_trace: "snd (send c r tr) = tr @ [Send r]"
  by (simp add: send_def split: option.splits)

lemma print_line_trace: "snd (print_line c l tr) = tr @ [Print l]"
  by (simp add: print_line_def split: option.splits)

text \<open>
  Each step of the handler only adds events to the trace, and only events of its own
  kind.
\<close>

lemma send_events:
  "send c r tr = (x, tr') \<Longrightarrow> e \<in> set tr' \<Longrightarrow> e \<in> set tr \<or> e = Send r"
  by (auto simp: send_def split: option.splits)

lemma print_line_events:
  "print_line c l tr = (x, tr') \<Longrightarrow> e \<in> set tr' \<Longrightarrow> e \<in> set tr \<or> e = Print l"
  by (auto simp: print_line_def split: option.splits)

lemma open_and_send_events:
  "open_and_send w c ap tr = (x, tr') \<Longrightarrow> e \<in> set tr' \<Longrightarrow>
   e \<in> set tr \<or> is_Send e \<or> is_file_access e"
  by (auto simp: open_and_send_def send_def split: sum.splits option.splits)

lemma serve_file_events:
  "serve_file w c p root tr = (x, tr') \<Longrightarrow> e \<in> set tr' \<Longrightarrow>
   e \<in> set tr \<or> is_Send e \<or> is_file_access e"
  by (auto simp: serve_file_def Let_def split: sum.splits prod.splits if_splits
           dest: send_events open_and_send_events)

lemma dispatch_events:
  "dispatch w c req tr = (x, tr') \<Longrightarrow> e \<in> set tr' \<Longrightarrow>
   e \<in> set tr \<or> is_Send e \<or> is_file_access e"
  by (auto simp: dispatch_def split: if_splits dest: send_events serve_file_events)

lemma interim_events:
  "interim c req tr = (x, tr') \<Longrightarrow> e \<in> set tr' \<Longrightarrow> e \<in> set tr \<or> is_Send e"
  by (auto simp: interim_def split: if_splits dest: send_events)

lemma drain_body_events:
  "drain_body c req tr = (x, tr') \<Longrightarrow> e \<in> set tr' \<Longrightarrow>
   e \<in> set tr \<or> is_BodyRead e \<or> is_Print e"
  by (auto simp: drain_body_def split: if_splits sum.splits dest: print_line_events)

lemma handle_try_events:
  "handle_try w c tr = (x, tr') \<Longrightarrow> e \<in> set tr' \<Longrightarrow> e \<in> set tr \<or> block_event e"
  by (auto simp: handle_try_def split: sum.splits prod.splits
           dest!: interim_events drain_body_events dispatch_events
           elim: is_Send.elims is_file_access.elims is_BodyRead.elims is_Print.elims)

lemma handle_except_events:
  "handle_except c x0 tr = (x, tr') \<Longrightarrow> e \<in> set tr' \<Longrightarrow> e \<in> set tr \<or> block_event e"
  by (auto simp: handle_except_def split: sum.splits prod.splits
           dest!: print_line_events send_events)


lemma stdout_openD: "stdout_open c \<Longrightarrow> print_raises c k = None"
  by (simp add: stdout_open_def)

lemma print_line_returns:
  "print_raises c (length (filter is_Print tr)) = None \<Longrightarrow>
   print_line c l tr = (Inr (), tr @ [Print l])"
  by (simp add: print_line_def)

lemma print_line_raises:
  "print_raises c (length (filter is_Print tr)) = Some e \<Longrightarrow>
   print_line c l tr = (Inl e, tr @ [Print l])"
  by (simp add: print_line_def)

text \<open>
  Once the line of line 81 is printed the \<open>with\<close> block is entered, and whatever the
  block does, the close of the socket follows it.
\<close>

lemma handle_client_entered:
  assumes "print_raises c 0 = None"
  shows "handle_client w c =
     (case (case handle_try w c [Print (NewConnection (client_addr c))] of
              (Inl e, tr1) \<Rightarrow> handle_except c e tr1
            | (Inr u, tr1) \<Rightarrow> (Inr u, tr1)) of
        (r, tr2) \<Rightarrow> (r, tr2 @ [SockClose]))"
  using assms by (simp add: handle_client_def print_line_def)

lemma handle_client_not_entered:
  assumes "print_raises c 0 = Some e"
  shows "handle_client w c = (Inl e, [Print (NewConnection (client_addr c))])"
  using assms by (simp add: handle_client_def print_line_def)

lemma handle_except_printed:
  assumes "print_raises c (length (filter is_Print tr)) = None"
  shows "handle_except c e tr =
           (case send_raises c (length (filter is_Send tr)) of
              None \<Rightarrow> Inr () | Some x \<Rightarrow> Inl x,
            tr @ [Print (FailedToParse e), Send (from_status_code 404)])"
  using assms by (simp add: handle_except_def print_line_def send_def split: option.splits)

text \<open>
  The \<open>except Exception\<close> of \<open>handle_client\<close>: whatever exception leaves the \<open>try\<close>, the
  handler prints it, sends the 404 response and closes the socket, provided the line
  can be printed.
\<close>

lemma handle_client_catch_all:
  assumes "print_raises c 0 = None"
      and "handle_try w c [Print (NewConnection (client_addr c))] = (Inl e, tr)"
      and "print_raises c (length (filter is_Print tr)) = None"
  shows "handle_client w c =
           (case send_raises c (length (filter is_Send tr)) of
              None \<Rightarrow> Inr () | Some x \<Rightarrow> Inl x,
            tr @ [Print (FailedToParse e), Send (from_status_code 404), SockClose])"
  using assms by (simp add: handle_client_entered handle_except_printed)

lemma handle_try_parse_error:
  "from_socket c = Inl e \<Longrightarrow> handle_try w c tr = (Inl e, tr @ [FromSocket])"
  by (simp add: handle_try_def)

text \<open>Every event of \<open>handle_client\<close> is one of the block or the close of the socket.\<close>

lemma handle_client_events:
  assumes "e \<in> set (snd (handle_client w c))"
  shows "block_event e \<or> e = SockClose"
proof (cases "print_raises c 0")
  case None
  obtain x tr where t: "handle_try w c [Print (NewConnection (client_addr c))] = (x, tr)"
    by (cases "handle_try w c [Print (NewConnection (client_addr c))]")
  have in_tr: "block_event y" if "y \<in> set tr" for y
    using handle_try_events [OF t that] by auto
  show ?thesis
  proof (cases x)
    case (Inl e1)
    obtain x2 tr2 where h: "handle_except c e1 tr = (x2, tr2)"
      by (cases "handle_except c e1 tr")
    have "block_event y" if "y \<in> set tr2" for y
      using handle_except_events [OF h that] in_tr by auto
    then show ?thesis
      using assms None t Inl h by (auto simp: handle_client_entered)
  next
    case (Inr u)
    then show ?thesis
      using assms None t in_tr by (auto simp: handle_client_entered)
  qed
next
  case (Some e0)
  then show ?thesis
    using assms by (simp add: handle_client_not_entered)
qed

lemma handle_client_no_task_done:
  "filter (\<lambda>e. e = TaskDone) (snd (handle_client w c)) = []"
  using handle_client_events [of TaskDone w c] by (auto simp: filter_empty_conv)

section \<open>The trace of the handler, step by step\<close>

lemma serve_file_appends:
  "\<exists>ev. snd (serve_file w c p root tr) = tr @ ev
        \<and> (\<forall>e\<in>set ev. is_file_access e \<or> is_final_send e)"
  by (auto simp: serve_file_def open_and_send_def send_def Let_def
           split: sum.splits option.splits)


lemma dispatch_get:
  "req_method req = ''GET'' \<Longrightarrow> dispatch w c req tr = serve_file w c (path req) ''www'' tr"
  by (simp add: dispatch_def)

lemma dispatch_appends:
  "\<exists>ev. snd (dispatch w c req tr) = tr @ ev
        \<and> (\<forall>e\<in>set ev. is_file_access e \<or> is_final_send e)"
  using serve_file_appends [of w c "path req" "''www''" tr]
  by (cases "req_method req = ''GET''") (auto simp: dispatch_def send_trace)

lemma handle_except_appends:
  "\<exists>ev. snd (handle_except c x tr) = tr @ ev
        \<and> set ev \<subseteq> {Print (FailedToParse x), Send (from_status_code 404)}"
  by (auto simp: handle_except_def print_line_def send_def split: option.splits)

text \<open>The interim response cannot be sent: the \<open>try\<close> is left at line 86.\<close>

lemma handle_try_interim_raises:
  assumes "from_socket c = Inr req" and "wants_continue req"
      and "send_raises c (length (filter is_Send tr)) = Some e"
  shows "handle_try w c tr = (Inl e, tr @ [FromSocket, Send (from_status_code 100)])"
  using assms by (simp add: handle_try_def interim_def send_def)

text \<open>
  Past the interim response the handler does what \<open>preamble\<close> lists; it leaves the \<open>try\<close>
  there when the read of the body or the \<open>print\<close> after it raises, and goes on to the
  method check otherwise.
\<close>

lemma handle_try_body_read_raises:
  assumes "from_socket c = Inr req"
      and "wants_continue req \<longrightarrow> send_raises c (length (filter is_Send tr)) = None"
      and "content_len req \<noteq> 0" and "body_read req (content_len req) = Inl e"
  shows "handle_try w c tr = (Inl e, tr @ preamble req)"
  using assms
  by (auto simp: handle_try_def interim_def drain_body_def send_def preamble_def)

lemma handle_try_body_print_raises:
  assumes "from_socket c = Inr req"
      and "wants_continue req \<longrightarrow> send_raises c (length (filter is_Send tr)) = None"
      and "content_len req \<noteq> 0" and "body_read req (content_len req) = Inr b"
      and "print_raises c (length (filter is_Print tr)) = Some e"
  shows "handle_try w c tr = (Inl e, tr @ preamble req)"
  using assms
  by (auto simp: handle_try_def interim_def drain_body_def send_def preamble_def
        print_line_def)

lemma handle_try_reaches_dispatch:
  assumes "from_socket c = Inr req"
      and "wants_continue req \<longrightarrow> send_raises c (length (filter is_Send tr)) = None"
      and "content_len req \<noteq> 0 \<longrightarrow>
             (\<exists>b. body_read req (content_len req) = Inr b)
             \<and> print_raises c (length (filter is_Print tr)) = None"
  shows "handle_try w c tr = dispatch w c req (tr @ preamble req)"
  using assms
  by (auto simp: handle_try_def interim_def drain_body_def send_def preamble_def
        print_line_def)

lemma handle_try_from_body_step:
  assumes "from_socket c = Inr req"
      and "wants_continue req \<longrightarrow> send_raises c (length (filter is_Send tr)) = None"
  shows "\<exists>ev. snd (handle_try w c tr) = tr @ preamble req @ ev
            \<and> (\<forall>e\<in>set ev. is_file_access e \<or> is_final_send e)"
proof (cases "content_len req \<noteq> 0 \<longrightarrow>
             (\<exists>b. body_read req (content_len req) = Inr b)
             \<and> print_raises c (length (filter is_Print tr)) = None")
  case True
  from handle_try_reaches_dispatch [OF assms True, of w]
       dispatch_appends [of w c req "tr @ preamble req"]
  show ?thesis by auto
next
  case False
  then have n: "content_len req \<noteq> 0"
    by simp
  show ?thesis
  proof (cases "body_read req (content_len req)")
    case (Inl e)
    from handle_try_body_read_raises [OF assms n Inl, of w] show ?thesis
      by simp
  next
    case (Inr b)
    with False obtain e where "print_raises c (length (filter is_Print tr)) = Some e"
      by auto
    from handle_try_body_print_raises [OF assms n Inr this, of w] show ?thesis
      by simp
  qed
qed

text \<open>The trace of \<open>handle_client\<close> around that of the \<open>try\<close>.\<close>

lemma handle_client_around_try:
  assumes "print_raises c 0 = None"
  shows "\<exists>ev. snd (handle_client w c)
               = snd (handle_try w c [Print (NewConnection (client_addr c))]) @ ev @ [SockClose]
            \<and> (\<forall>e\<in>set ev. is_Print e \<or> e = Send (from_status_code 404))
            \<and> (fst (handle_try w c [Print (NewConnection (client_addr c))]) = Inr ()
                 \<longrightarrow> ev = [])"
proof (cases "handle_try w c [Print (NewConnection (client_addr c))]")
  case (Pair x tr)
  show ?thesis
  proof (cases x)
    case (Inl e)
    obtain ev where "snd (handle_except c e tr) = tr @ ev"
      and "set ev \<subseteq> {Print (FailedToParse e), Send (from_status_code 404)}"
      using handle_except_appends [of c e tr] by blast
    then show ?thesis
      using assms Pair Inl
      by (cases "handle_except c e tr") (auto simp: handle_client_entered)
  next
    case (Inr u)
    then show ?thesis
      using assms Pair by (simp add: handle_client_entered)
  qed
qed

lemma preamble_body_reads:
  "filter is_BodyRead (preamble req)
     = (if content_len req \<noteq> 0 then [BodyRead (content_len req)] else [])"
  by (simp add: preamble_def split: sum.splits)

lemma preamble_no_file_access: "filter is_file_access (preamble req) = []"
  by (simp add: preamble_def split: sum.splits)



lemma is_Print_kinds:
  "is_Print e \<Longrightarrow> \<not> is_file_access e \<and> \<not> is_BodyRead e \<and> \<not> is_Send e"
  by (cases e) simp_all





lemma final_kinds:
  "is_file_access e \<or> is_final_send e \<Longrightarrow> \<not> is_BodyRead e \<and> e \<noteq> Send (from_status_code 100)"
  by (cases e) auto

lemma body_reads_of_handle_client:
  assumes "print_raises c 0 = None" and "from_socket c = Inr req"
  shows "filter is_BodyRead (snd (handle_client w c))
           = (if content_len req \<noteq> 0 \<and> reaches_body_step c req
              then [BodyRead (content_len req)] else [])"
proof -
  let ?tr0 = "[Print (NewConnection (client_addr c))]"
  obtain ev' where t: "snd (handle_client w c) = snd (handle_try w c ?tr0) @ ev' @ [SockClose]"
    and ev': "\<forall>e\<in>set ev'. is_Print e \<or> e = Send (from_status_code 404)"
    using handle_client_around_try [OF assms(1)] by blast
  have n: "filter is_BodyRead ev' = []"
    using ev' by (auto simp: filter_empty_conv dest: is_Print_kinds)
  show ?thesis
  proof (cases "reaches_body_step c req")
    case True
    then have i: "wants_continue req \<longrightarrow> send_raises c (length (filter is_Send ?tr0)) = None"
      by (simp add: reaches_body_step_def)
    obtain ev where h: "snd (handle_try w c ?tr0) = ?tr0 @ preamble req @ ev"
      and ev: "\<forall>e\<in>set ev. is_file_access e \<or> is_final_send e"
      using handle_try_from_body_step [OF assms(2) i] by blast
    have "\<not> is_BodyRead e" if "e \<in> set ev" for e
      using ev that final_kinds [of e] by blast
    then have "filter is_BodyRead ev = []"
      by (simp add: filter_empty_conv)
    then show ?thesis
      using True t h n by (simp add: preamble_body_reads)
  next
    case False
    then obtain e where "wants_continue req" and "send_raises c 0 = Some e"
      by (auto simp: reaches_body_step_def)
    then show ?thesis
      using False t n handle_try_interim_raises [OF assms(2), of ?tr0 e w] by simp
  qed
qed

lemma content_len_missing: "headers req ''content-length'' = None \<Longrightarrow> content_len req = 0"
proof -
  have "py_int ''0'' = Some 0"
    by code_simp
  then show "headers req ''content-length'' = None \<Longrightarrow> content_len req = 0"
    by (simp add: content_len_def headers_get_def)
qed

lemma content_len_present:
  "headers req ''content-length'' = Some v \<Longrightarrow>
   content_len req = (case py_int v of None \<Rightarrow> 0 | Some n \<Rightarrow> n)"
  by (simp add: content_len_def headers_get_def)

section \<open>The interim response and the rest of the run\<close>

lemma interim_sent_append: "2 \<le> length tr \<Longrightarrow> interim_sent (tr @ ev) = interim_sent tr @ ev"
  by (simp add: interim_sent_def)

lemma filter_take_drop:
  "length (filter P (take n xs)) + length (filter P (drop n xs)) = length (filter P xs)"
proof -
  have "filter P xs = filter P (take n xs) @ filter P (drop n xs)"
    by (metis append_take_drop_id filter_append)
  then show ?thesis
    by simp
qed

lemma interim_sent_sends:
  "length (filter is_Send (interim_sent tr)) = Suc (length (filter is_Send tr))"
  using filter_take_drop [of is_Send 2 tr] by (simp add: interim_sent_def)

lemma interim_sent_prints:
  "length (filter is_Print (interim_sent tr)) = length (filter is_Print tr)"
  using filter_take_drop [of is_Print 2 tr] by (simp add: interim_sent_def)

lemma send_shift:
  "2 \<le> length tr \<Longrightarrow>
   send c r (interim_sent tr) = apsnd interim_sent (send (after_interim c req) r tr)"
  by (simp add: send_def after_interim_def interim_sent_sends interim_sent_append
           split: option.splits)

lemma print_line_shift:
  "2 \<le> length tr \<Longrightarrow>
   print_line c l (interim_sent tr) = apsnd interim_sent (print_line (after_interim c req) l tr)"
  by (simp add: print_line_def after_interim_def interim_sent_prints interim_sent_append
           split: option.splits)

lemma serve_file_shift:
  "2 \<le> length tr \<Longrightarrow>
   serve_file w c p root (interim_sent tr)
     = apsnd interim_sent (serve_file w (after_interim c req) p root tr)"
  by (simp add: serve_file_def open_and_send_def send_def Let_def after_interim_def
        interim_sent_sends interim_sent_append split: sum.splits option.splits)

lemma without_expect_fields:
  "req_method (without_expect req) = req_method req"
  "path (without_expect req) = path req"
  "body_read (without_expect req) = body_read req"
  "content_len (without_expect req) = content_len req"
  by (simp_all add: without_expect_def content_len_def headers_get_def)

lemma without_expect_no_continue: "\<not> wants_continue (without_expect req)"
  by (simp add: without_expect_def wants_continue_def headers_get_def)

lemma after_interim_fields:
  "from_socket (after_interim c req) = Inr (without_expect req)"
  "client_addr (after_interim c req) = client_addr c"
  "print_raises (after_interim c req) = print_raises c"
  by (simp_all add: after_interim_def)

lemma dispatch_shift:
  "2 \<le> length tr \<Longrightarrow>
   dispatch w c req (interim_sent tr)
     = apsnd interim_sent (dispatch w (after_interim c req) (without_expect req) tr)"
  by (simp add: dispatch_def without_expect_fields send_shift serve_file_shift)

lemma drain_body_shift:
  "2 \<le> length tr \<Longrightarrow>
   drain_body c req (interim_sent tr)
     = apsnd interim_sent (drain_body (after_interim c req) (without_expect req) tr)"
  using print_line_shift [of "tr @ [BodyRead (content_len req)]" c _ req]
  by (simp add: drain_body_def without_expect_fields interim_sent_append split: sum.splits)

lemma handle_except_shift:
  "2 \<le> length tr \<Longrightarrow>
   handle_except c e (interim_sent tr)
     = apsnd interim_sent (handle_except (after_interim c req) e tr)"
  by (simp add: handle_except_def print_line_def send_def after_interim_def
        interim_sent_sends interim_sent_prints interim_sent_append split: option.splits)

lemma drain_body_length: "length tr \<le> length (snd (drain_body c req tr))"
  by (simp add: drain_body_def print_line_def split: sum.splits option.splits)

lemma dispatch_length: "length tr \<le> length (snd (dispatch w c req tr))"
  using dispatch_appends [of w c req tr] by auto

lemma handle_try_shift:
  assumes "from_socket c = Inr req" and "wants_continue req" and "send_raises c 0 = None"
  shows "handle_try w c [Print l]
           = apsnd interim_sent (handle_try w (after_interim c req) [Print l])"
proof -
  let ?c = "after_interim c req" and ?req = "without_expect req"
  have s: "interim_sent [Print l, FromSocket] = [Print l, FromSocket, Send (from_status_code 100)]"
    by (simp add: interim_sent_def)
  have l: "handle_try w c [Print l] =
             (case drain_body c req (interim_sent [Print l, FromSocket]) of
                (Inl e, tr2) \<Rightarrow> (Inl e, tr2)
              | (Inr u, tr2) \<Rightarrow> dispatch w c req tr2)"
    using assms by (simp add: handle_try_def interim_def send_def s)
  have r: "handle_try w ?c [Print l] =
             (case drain_body ?c ?req [Print l, FromSocket] of
                (Inl e, tr2) \<Rightarrow> (Inl e, tr2)
              | (Inr u, tr2) \<Rightarrow> dispatch w ?c ?req tr2)"
    by (simp add: handle_try_def interim_def without_expect_no_continue after_interim_fields)
  obtain y tr2 where d: "drain_body ?c ?req [Print l, FromSocket] = (y, tr2)"
    by (cases "drain_body ?c ?req [Print l, FromSocket]")
  have len: "2 \<le> length tr2"
    using drain_body_length [of "[Print l, FromSocket]" ?c ?req] d by simp
  have d': "drain_body c req (interim_sent [Print l, FromSocket]) = (y, interim_sent tr2)"
    using drain_body_shift [of "[Print l, FromSocket]" c req] d by simp
  show ?thesis
    using l r d d' len by (cases y) (simp_all add: dispatch_shift)
qed

lemma handle_try_length: "Suc (length tr) \<le> length (snd (handle_try w c tr))"
proof (cases "from_socket c")
  case (Inl e)
  then show ?thesis by (simp add: handle_try_def)
next
  case (Inr req)
  obtain y tr1 where i: "interim c req (tr @ [FromSocket]) = (y, tr1)"
    by (cases "interim c req (tr @ [FromSocket])")
  then have l1: "Suc (length tr) \<le> length tr1"
    by (auto simp: interim_def send_def split: if_splits option.splits)
  obtain z tr2 where d: "drain_body c req tr1 = (z, tr2)"
    by (cases "drain_body c req tr1")
  then have l2: "length tr1 \<le> length tr2"
    using drain_body_length [of tr1 c req] by simp
  have l3: "length tr2 \<le> length (snd (dispatch w c req tr2))"
    by (rule dispatch_length)
  show ?thesis
    using Inr i d l1 l2 l3 by (cases y; cases z) (simp_all add: handle_try_def)
qed

text \<open>
  Once the interim response is sent, the run goes on as the run of the same request
  without the \<open>expect\<close> header does.
\<close>

lemma handle_client_shift:
  assumes "print_raises c 0 = None" and "from_socket c = Inr req"
      and "wants_continue req" and "send_raises c 0 = None"
  shows "handle_client w c = apsnd interim_sent (handle_client w (after_interim c req))"
proof -
  let ?c = "after_interim c req"
  let ?tr0 = "[Print (NewConnection (client_addr c))]"
  have p: "print_raises ?c 0 = None" and a: "client_addr ?c = client_addr c"
    using assms(1) by (simp_all add: after_interim_fields)
  obtain y tr where t: "handle_try w ?c ?tr0 = (y, tr)"
    by (cases "handle_try w ?c ?tr0")
  have len: "2 \<le> length tr"
    using handle_try_length [of ?tr0 w ?c] t by simp
  have t': "handle_try w c ?tr0 = (y, interim_sent tr)"
    using handle_try_shift [OF assms(2-4), of w] t by simp
  show ?thesis
  proof (cases y)
    case (Inl e)
    obtain z tr2 where h: "handle_except ?c e tr = (z, tr2)"
      by (cases "handle_except ?c e tr")
    have "length tr \<le> length tr2"
      using handle_except_appends [of ?c e tr] h by auto
    then have len2: "2 \<le> length tr2"
      using len by simp
    have "handle_except c e (interim_sent tr) = (z, interim_sent tr2)"
      using handle_except_shift [OF len, of c e req] h by simp
    then show ?thesis
      using Inl t t' h len2
      by (simp add: handle_client_entered [OF assms(1)] handle_client_entered [OF p] a
            interim_sent_append)
  next
    case (Inr u)
    then show ?thesis
      using t t' len
      by (simp add: handle_client_entered [OF assms(1)] handle_client_entered [OF p] a
            interim_sent_append)
  qed
qed

lemma dispatch_returns_final:
  "dispatch w c req tr = (Inr u, tr') \<Longrightarrow> filter is_final_send tr' \<noteq> []"
  by (auto simp: dispatch_def serve_file_def open_and_send_def send_def Let_def
           split: if_splits sum.splits option.splits)

lemma handle_try_returns_final:
  "handle_try w c tr = (Inr u, tr') \<Longrightarrow> filter is_final_send tr' \<noteq> []"
  by (auto simp: handle_try_def split: sum.splits prod.splits dest: dispatch_returns_final)

text \<open>While the log lines can be printed, every run sends a response other than 100.\<close>

lemma final_response_sent:
  assumes "stdout_open c"
  shows "filter is_final_send (snd (handle_client w c)) \<noteq> []"
proof -
  let ?tr0 = "[Print (NewConnection (client_addr c))]"
  have p: "print_raises c k = None" for k
    using assms by (rule stdout_openD)
  obtain y tr where t: "handle_try w c ?tr0 = (y, tr)"
    by (cases "handle_try w c ?tr0")
  show ?thesis
  proof (cases y)
    case (Inl e)
    then show ?thesis
      using t by (simp add: handle_client_entered [OF p] handle_except_printed [OF p])
  next
    case (Inr u)
    then show ?thesis
      using t handle_try_returns_final [of w c ?tr0 u tr]
      by (simp add: handle_client_entered [OF p])
  qed
qed

lemma interim_first:
  assumes "print_raises c 0 = None" and "from_socket c = Inr req" and "wants_continue req"
  shows "\<exists>ev. snd (handle_client w c)
           = [Print (NewConnection (client_addr c)), FromSocket, Send (from_status_code 100)] @ ev"
proof -
  let ?tr0 = "[Print (NewConnection (client_addr c))]"
  obtain ev' where t: "snd (handle_client w c) = snd (handle_try w c ?tr0) @ ev' @ [SockClose]"
    using handle_client_around_try [OF assms(1)] by blast
  show ?thesis
  proof (cases "send_raises c 0")
    case None
    then have "wants_continue req \<longrightarrow> send_raises c (length (filter is_Send ?tr0)) = None"
      by simp
    from handle_try_from_body_step [OF assms(2) this, of w]
    obtain ev where "snd (handle_try w c ?tr0) = ?tr0 @ preamble req @ ev"
      by blast
    then show ?thesis
      using t assms(3) by (simp add: preamble_def)
  next
    case (Some e)
    then show ?thesis
      using t handle_try_interim_raises [OF assms(2,3), of ?tr0 e w] by simp
  qed
qed

lemma no_interim_unless_asked:
  assumes "print_raises c 0 = None" and "from_socket c = Inr req"
      and "\<not> wants_continue req"
  shows "Send (from_status_code 100) \<notin> set (snd (handle_client w c))"
proof -
  let ?tr0 = "[Print (NewConnection (client_addr c))]"
  obtain ev' where t: "snd (handle_client w c) = snd (handle_try w c ?tr0) @ ev' @ [SockClose]"
    and ev': "\<forall>e\<in>set ev'. is_Print e \<or> e = Send (from_status_code 404)"
    using handle_client_around_try [OF assms(1)] by blast
  have "wants_continue req \<longrightarrow> send_raises c (length (filter is_Send ?tr0)) = None"
    using assms(3) by simp
  from handle_try_from_body_step [OF assms(2) this, of w]
  obtain ev where h: "snd (handle_try w c ?tr0) = ?tr0 @ preamble req @ ev"
    and ev: "\<forall>e\<in>set ev. is_file_access e \<or> is_final_send e"
    by blast
  have a: "Send (from_status_code 100) \<notin> set (preamble req)"
    using assms(3) by (auto simp: preamble_def split: sum.splits)
  have b: "Send (from_status_code 100) \<notin> set ev"
    using ev final_kinds [of "Send (from_status_code 100)"] by auto
  have c: "Send (from_status_code 100) \<notin> set ev'"
    using ev' by auto
  show ?thesis
    using t h a b c by simp
qed

text \<open>
  The scenario of the specification: the request asks for the interim response; the
  server sends it, then the file.
\<close>

lemma scenario_interim_then_file:
  "handle_client example_world
     (example_conn (Inr (example_request ''GET'' ''/index.html''
        [(''expect'', ''100-continue'')])))
   = (Inr (),
      [Print (NewConnection (''127.0.0.1'', 50000)), FromSocket,
       Send (from_status_code 100), Opened ''/srv/www/index.html'', Send hello_response,
       Closed ''/srv/www/index.html'', SockClose])"
  by code_simp

section \<open>What \<open>serve_file\<close> does with the candidate\<close>







lemma serve_file_missing:
  assumes "startswith (candidate (abspath (cwd w) root) p) (abspath (cwd w) root)"
      and "open_rb w (candidate (abspath (cwd w) root) p) = Inl FileNotFoundError"
  shows "serve_file w c p root tr =
           send c (from_status_code 404)
             (tr @ [OpenFailed (candidate (abspath (cwd w) root) p) FileNotFoundError])"
  using assms by (simp add: serve_file_def open_and_send_def Let_def)

lemma serve_file_open_raises:
  assumes "startswith (candidate (abspath (cwd w) root) p) (abspath (cwd w) root)"
      and "open_rb w (candidate (abspath (cwd w) root) p) = Inl e"
      and "e \<noteq> FileNotFoundError"
  shows "serve_file w c p root tr =
           (Inl e, tr @ [OpenFailed (candidate (abspath (cwd w) root) p) e])"
  using assms by (simp add: serve_file_def open_and_send_def Let_def)

text \<open>No file stays open: what is opened is closed, and a failed \<open>open\<close> opens nothing.\<close>

lemma serve_file_file_accesses:
  assumes "startswith (candidate (abspath (cwd w) root) p) (abspath (cwd w) root)"
  shows "filter is_file_access (snd (serve_file w c p root tr))
           = filter is_file_access tr
             @ (case open_rb w (candidate (abspath (cwd w) root) p) of
                  Inl e \<Rightarrow> [OpenFailed (candidate (abspath (cwd w) root) p) e]
                | Inr f \<Rightarrow> [Opened (candidate (abspath (cwd w) root) p),
                            Closed (candidate (abspath (cwd w) root) p)])"
  using assms
  by (simp add: serve_file_def open_and_send_def send_def Let_def
           split: sum.splits option.splits)

text \<open>A GET request that reaches line 101: the handler's trace around \<open>serve_file\<close>.\<close>

lemma handle_try_get:
  assumes "from_socket c = Inr req" and "req_method req = ''GET''"
      and "reaches_method_check c req"
  shows "handle_try w c [Print l] =
           serve_file w c (path req) ''www'' (Print l # preamble req)"
proof -
  have i: "wants_continue req \<longrightarrow> send_raises c (length (filter is_Send [Print l])) = None"
    using assms(3) by (simp add: reaches_method_check_def reaches_body_step_def)
  have b: "content_len req \<noteq> 0 \<longrightarrow>
             (\<exists>b. body_read req (content_len req) = Inr b)
             \<and> print_raises c (length (filter is_Print [Print l])) = None"
    using assms(3) by (auto simp: reaches_method_check_def split: sum.splits)
  show ?thesis
    using handle_try_reaches_dispatch [OF assms(1) i b, of w] dispatch_get [OF assms(2)]
    by simp
qed

section \<open>The worker loop\<close>

text \<open>
  One iteration, lines 68 to 74, spelled out: the worker calls \<open>handle_client\<close>; an
  exception that leaves it is caught and printed; \<open>task_done\<close> follows in either case.
\<close>

lemma serve_one_unfolded:
  assumes "stdout_open c"
  shows "serve_one w c =
           (Inr (),
            snd (handle_client w c)
            @ (case fst (handle_client w c) of
                 Inl x \<Rightarrow> [Print (UnhandledError x)]
               | Inr u \<Rightarrow> [])
            @ [TaskDone])"
  using stdout_openD [OF assms]
  by (cases "handle_client w c")
     (auto simp: serve_one_def print_line_def split: sum.splits)

lemma serve_one_task_done:
  "length (filter (\<lambda>e. e = TaskDone) (snd (serve_one w c))) = 1"
  using handle_client_no_task_done [of w c]
  by (cases "handle_client w c")
     (auto simp: serve_one_def print_line_def split: sum.splits option.splits)

lemma while_running_no_stop:
  "StopCalled \<notin> set ts \<Longrightarrow> list_all tick_stdout_open ts \<Longrightarrow> running wk \<Longrightarrow>
   while_running w wk ts tr = (Waiting, wk, tr @ concat (map (tick_events w) ts))"
proof (induction ts arbitrary: tr)
  case Nil
  then show ?case by simp
next
  case (Cons t ts)
  then show ?case
    by (cases t) (simp_all add: serve_one_unfolded)
qed

lemma task_done_count:
  "length (filter (\<lambda>e. e = TaskDone) (concat (map (tick_events w) ts)))
     = length (filter is_Got ts)"
proof (induction ts)
  case Nil
  then show ?case by simp
next
  case (Cons t ts)
  then show ?case by (cases t) (simp_all add: serve_one_task_done)
qed

text \<open>Once the flag is down the loop ends at its next test, whatever is still queued.\<close>

lemma while_running_stopped: "\<not> running wk \<Longrightarrow> fst (while_running w wk ts tr) = Exited"
proof (induction ts arbitrary: wk)
  case Nil
  then show ?case by simp
next
  case (Cons t ts)
  then show ?case by (cases t) (simp_all add: stop_def)
qed

section \<open>The accept loop and the queue\<close>

lemma queue_inv_start:
  "0 < n \<Longrightarrow> queue_inv (n * 8) (start_state (HTTPServer_init h p n))"
  by (simp add: queue_inv_def start_state_def HTTPServer_init_def Queue_def pending_def)

lemma queue_inv_step:
  assumes "0 < cap" and "queue_inv cap s"
  shows "queue_inv cap (accept_step s st)"
proof (cases st)
  case (Accept c)
  with assms show ?thesis
    by (auto simp: queue_inv_def pending_def put_def split: option.splits)
next
  case (AcceptRaises e)
  with assms show ?thesis
    by (auto simp: queue_inv_def pending_def split: option.splits)
next
  case (AcceptInterrupted c)
  with assms show ?thesis
    by (auto simp: queue_inv_def pending_def split: option.splits)
next
  case WorkerGet
  with assms show ?thesis
    by (auto simp: queue_inv_def pending_def put_def get_def split: option.splits list.splits)
next
  case Interrupt
  with assms show ?thesis
    by (auto simp: queue_inv_def pending_def split: option.splits)
qed

lemma queue_inv_foldl:
  "0 < cap \<Longrightarrow> queue_inv cap s \<Longrightarrow> queue_inv cap (foldl accept_step s steps)"
  by (induction steps arbitrary: s) (simp_all add: queue_inv_step)

lemma queue_inv_accept_loop:
  "0 < n \<Longrightarrow> queue_inv (n * 8) (accept_loop (HTTPServer_init h p n) steps)"
  by (simp add: accept_loop_def queue_inv_foldl queue_inv_start)

lemma accept_loop_snoc:
  "accept_loop srv (steps @ [st]) = accept_step (accept_loop srv steps) st"
  by (simp add: accept_loop_def)

text \<open>A blocked \<open>put\<close> returns as soon as a worker has taken a connection.\<close>

lemma blocked_put_completes:
  assumes "0 < cap" and "queue_inv cap s" and "blocked s = Some b"
  shows "blocked (accept_step s WorkerGet) = None
       \<and> items (shared (accept_step s WorkerGet)) = tl (items (shared s)) @ [b]
       \<and> taken (accept_step s WorkerGet) = taken s @ [hd (items (shared s))]"
  using assms
  by (auto simp: queue_inv_def put_def get_def split: option.splits list.splits)

text \<open>
  With \<open>worker_count \<le> 0\<close> the bound passed to \<open>Queue\<close> is not positive, which Python
  takes as no bound at all: \<open>put\<close> never blocks.
\<close>

lemma put_unbounded: "maxsize q \<le> 0 \<Longrightarrow> put q c \<noteq> Blocks"
  by (simp add: put_def)

section \<open>Claims\<close>

text \<open>
  C1. The claim: a request path whose normalized candidate lies outside the document
  root gets 404 and no file outside the root is served. The check of \<open>serve_file\<close> is
  \<open>abspath.startswith(root_path)\<close>, a comparison of strings, so a sibling of the root
  whose name extends the root's name passes it: with the root \<open>/srv/www\<close>, the path
  \<open>/../www-secret/x\<close> normalizes to \<open>/srv/www-secret/x\<close>, which is outside the root and
  starts with \<open>/srv/www\<close>. The file is opened and sent with status 200.
\<close>

theorem serve_file_serves_sibling_of_root:
  "abspath (cwd example_world) ''www'' = ''/srv/www''
   \<and> candidate ''/srv/www'' ''/../www-secret/x'' = ''/srv/www-secret/x''
   \<and> serve_file example_world (example_conn (Inl ParseError)) ''/../www-secret/x'' ''www'' []
       = (Inr (),
          [Opened ''/srv/www-secret/x'',
           Send (Response ''200 OK'' [(''content-type'', ''application/octet-stream'')]
                   (FileHandle ''/srv/www-secret/x'' ''secret'')),
           Closed ''/srv/www-secret/x''])"
  by code_simp

text \<open>What the check does guarantee: a candidate that does not start with the root's
  string is answered with 404 and nothing is opened.\<close>

lemma serve_file_not_prefixed_404:
  "\<not> startswith (candidate (abspath (cwd w) root) p) (abspath (cwd w) root) \<Longrightarrow>
   snd (serve_file w c p root tr) = tr @ [Send (from_status_code 404)]"
  by (simp add: serve_file_def send_trace)

text \<open>
  C2. The claim: when the parse raises (and for any exception that leaves the steps of
  the handler) the handler answers 404, and the exception never ends the worker thread.
  Both the handler's \<open>except Exception\<close> and the worker's start with a \<open>print\<close>, and
  a \<open>print\<close> that raises (standard output is a closed pipe) leaves the handler before
  the 404 response and leaves \<open>run\<close> after \<open>task_done\<close>, which ends the thread. What
  holds is the claim for connections during which the log lines can be printed: the
  handler's whole trace is the connection line, the parse attempt, the logged failure,
  the 404 response and the close of the socket; any exception that leaves the \<open>try\<close>
  of \<open>handle_client\<close> is answered with 404; the iteration of the worker is the call of
  \<open>handle_client\<close>, the line printed for an exception that left it, and \<open>task_done\<close>;
  and in a schedule without \<open>stop()\<close> the worker stays in its loop (it ends \<open>Waiting\<close>),
  serves every later tick and calls \<open>task_done\<close> once per dequeued connection.
\<close>

theorem parse_failure_404_and_worker_continues:
  assumes "from_socket c = Inl e" and "stdout_open c"
      and "StopCalled \<notin> set ts" and "list_all tick_stdout_open ts"
  shows "handle_client w c =
           (case send_raises c 0 of None \<Rightarrow> Inr () | Some x \<Rightarrow> Inl x,
            [Print (NewConnection (client_addr c)), FromSocket, Print (FailedToParse e),
             Send (from_status_code 404), SockClose])
       \<and> (\<forall>c' e' tr. stdout_open c'
             \<and> handle_try w c' [Print (NewConnection (client_addr c'))] = (Inl e', tr) \<longrightarrow>
             snd (handle_client w c') =
               tr @ [Print (FailedToParse e'), Send (from_status_code 404), SockClose])
       \<and> serve_one w c =
           (Inr (),
            [Print (NewConnection (client_addr c)), FromSocket, Print (FailedToParse e),
             Send (from_status_code 404), SockClose]
            @ (case send_raises c 0 of None \<Rightarrow> [] | Some x \<Rightarrow> [Print (UnhandledError x)])
            @ [TaskDone])
       \<and> (\<forall>c'. stdout_open c' \<longrightarrow>
             serve_one w c' =
               (Inr (),
                snd (handle_client w c')
                @ (case fst (handle_client w c') of
                     Inl x \<Rightarrow> [Print (UnhandledError x)]
                   | Inr u \<Rightarrow> [])
                @ [TaskDone]))
       \<and> run w wk (Got c # ts) =
           (Waiting, wk\<lparr>running := True\<rparr>,
            snd (serve_one w c) @ concat (map (tick_events w) ts))
       \<and> length (filter (\<lambda>x. x = TaskDone) (snd (snd (run w wk (Got c # ts)))))
           = Suc (length (filter is_Got ts))"
proof -
  have p: "print_raises c k = None" for k
    using assms(2) by (rule stdout_openD)
  have a: "handle_client w c =
           (case send_raises c 0 of None \<Rightarrow> Inr () | Some x \<Rightarrow> Inl x,
            [Print (NewConnection (client_addr c)), FromSocket, Print (FailedToParse e),
             Send (from_status_code 404), SockClose])"
    using handle_client_catch_all [OF p handle_try_parse_error [OF assms(1)] p] by simp
  have b: "snd (handle_client w c') =
             tr @ [Print (FailedToParse e'), Send (from_status_code 404), SockClose]"
    if "stdout_open c'"
      and "handle_try w c' [Print (NewConnection (client_addr c'))] = (Inl e', tr)"
    for c' e' tr
    using handle_client_catch_all [OF stdout_openD [OF that(1)] that(2) stdout_openD [OF that(1)]]
    by simp
  have s: "serve_one w c =
           (Inr (),
            [Print (NewConnection (client_addr c)), FromSocket, Print (FailedToParse e),
             Send (from_status_code 404), SockClose]
            @ (case send_raises c 0 of None \<Rightarrow> [] | Some x \<Rightarrow> [Print (UnhandledError x)])
            @ [TaskDone])"
    using serve_one_unfolded [OF assms(2), of w] a by (simp split: option.splits)
  have r: "run w wk (Got c # ts) =
             (Waiting, wk\<lparr>running := True\<rparr>,
              snd (serve_one w c) @ concat (map (tick_events w) ts))"
    using while_running_no_stop [of "Got c # ts" "wk\<lparr>running := True\<rparr>" w "[]"] assms(2-4)
    by (simp add: run_def)
  have n: "length (filter (\<lambda>x. x = TaskDone) (snd (snd (run w wk (Got c # ts)))))
           = Suc (length (filter is_Got ts))"
    by (simp add: r task_done_count serve_one_task_done)
  show ?thesis
    using a b s r n serve_one_unfolded by blast
qed

theorem parse_failure_404_and_worker_continues_witness:
  "from_socket (example_conn (Inl ParseError)) = Inl ParseError
   \<and> stdout_open (example_conn (Inl ParseError))
   \<and> handle_client example_world (example_conn (Inl ParseError)) =
       (Inr (),
        [Print (NewConnection (''127.0.0.1'', 50000)), FromSocket,
         Print (FailedToParse ParseError), Send (from_status_code 404), SockClose])
   \<and> serve_one example_world (example_conn (Inl ParseError)) =
       (Inr (),
        [Print (NewConnection (''127.0.0.1'', 50000)), FromSocket,
         Print (FailedToParse ParseError), Send (from_status_code 404), SockClose, TaskDone])
   \<and> fst (run example_world HTTPWorker_init
            [Got (example_conn (Inl ParseError)), Empty,
             Got (example_conn (Inr (example_request ''GET'' ''/'' [])))]) = Waiting
   \<and> length (filter (\<lambda>x. x = TaskDone)
        (snd (snd (run example_world HTTPWorker_init
            [Got (example_conn (Inl ParseError)), Empty,
             Got (example_conn (Inr (example_request ''GET'' ''/'' [])))])))) = 2"
proof -
  have parse: "from_socket (example_conn (Inl ParseError)) = Inl ParseError"
    by (simp add: example_conn_def)
  have out: "stdout_open (example_conn r)" for r
    by (simp add: stdout_open_def example_conn_def)
  have addr: "client_addr (example_conn (Inl ParseError)) = (''127.0.0.1'', 50000)"
    by (simp add: example_conn_def)
  have sends: "send_raises (example_conn (Inl ParseError)) 0 = None"
    by (simp add: example_conn_def)
  have no_stop:
    "StopCalled \<notin> set [Empty, Got (example_conn (Inr (example_request ''GET'' ''/'' [])))]"
    by simp
  have outs:
    "list_all tick_stdout_open
       [Empty, Got (example_conn (Inr (example_request ''GET'' ''/'' [])))]"
    by (simp add: out)
  note th = parse_failure_404_and_worker_continues
              [OF parse out no_stop outs, of example_world HTTPWorker_init]
  have a: "handle_client example_world (example_conn (Inl ParseError)) =
       (Inr (),
        [Print (NewConnection (''127.0.0.1'', 50000)), FromSocket,
         Print (FailedToParse ParseError), Send (from_status_code 404), SockClose])"
    using th [THEN conjunct1] by (simp add: addr sends)
  have s: "serve_one example_world (example_conn (Inl ParseError)) =
       (Inr (),
        [Print (NewConnection (''127.0.0.1'', 50000)), FromSocket,
         Print (FailedToParse ParseError), Send (from_status_code 404), SockClose, TaskDone])"
    using th [THEN conjunct2, THEN conjunct2, THEN conjunct1] by (simp add: addr sends)
  have r: "fst (run example_world HTTPWorker_init
            [Got (example_conn (Inl ParseError)), Empty,
             Got (example_conn (Inr (example_request ''GET'' ''/'' [])))]) = Waiting"
    using th [THEN conjunct2, THEN conjunct2, THEN conjunct2, THEN conjunct2, THEN conjunct1]
    by simp
  have n: "length (filter (\<lambda>x. x = TaskDone)
        (snd (snd (run example_world HTTPWorker_init
            [Got (example_conn (Inl ParseError)), Empty,
             Got (example_conn (Inr (example_request ''GET'' ''/'' [])))])))) = 2"
    using th [THEN conjunct2, THEN conjunct2, THEN conjunct2, THEN conjunct2, THEN conjunct2]
    by simp
  show ?thesis
    using parse out a s r n by blast
qed

text \<open>
  The claim as stated fails when standard output is lost after the connection line: the
  parse raises, the \<open>print\<close> of line 103 raises, no 404 response is sent; the \<open>print\<close>
  of line 71 raises in turn and the worker thread ends with the next connection
  unserved.
\<close>

theorem parse_failure_with_stdout_lost_ends_worker:
  "run example_world HTTPWorker_init
     [Got (lost_stdout_conn (Inl ParseError)),
      Got (example_conn (Inr (example_request ''GET'' ''/'' [])))]
   = (Died BrokenPipeError, HTTPWorker_init,
      [Print (NewConnection (''127.0.0.1'', 50000)), FromSocket,
       Print (FailedToParse ParseError), SockClose,
       Print (UnhandledError BrokenPipeError), TaskDone])"
  by code_simp




text \<open>
  C4. The claim: the declared length is 0 when the header is missing or is not an
  integer, and the body is read exactly when the declared length is greater than 0.
  The test of line 93 is \<open>if content_len\<close>, which holds of every length other than 0,
  and the handler gets to it only past the interim response. What holds: the declared
  length is that of \<open>int\<close> on the header, and 0 when the header is missing or \<open>int\<close>
  raises \<open>ValueError\<close>; and for a declared length that is not negative, the handler
  makes one read, of exactly that many bytes, when the length is greater than 0 and
  the interim response, if one was asked for, has been sent, and makes no read
  otherwise.
\<close>

theorem declared_length_read_when_positive:
  assumes "print_raises c 0 = None" and "from_socket c = Inr req"
      and "0 \<le> content_len req"
  shows "(headers req ''content-length'' = None \<longrightarrow> content_len req = 0)
       \<and> (\<forall>v. headers req ''content-length'' = Some v \<longrightarrow>
              content_len req = (case py_int v of None \<Rightarrow> 0 | Some n \<Rightarrow> n))
       \<and> filter is_BodyRead (snd (handle_client w c))
           = (if 0 < content_len req \<and> reaches_body_step c req
              then [BodyRead (content_len req)] else [])"
  using assms(3) body_reads_of_handle_client [OF assms(1,2), of w]
  by (auto simp: content_len_missing content_len_present)

theorem declared_length_read_when_positive_witness:
  "print_raises (example_conn (Inr (example_request ''GET'' ''/'' [(''content-length'', '' 1_0 '')]))) 0 = None
   \<and> from_socket (example_conn (Inr (example_request ''GET'' ''/'' [(''content-length'', '' 1_0 '')])))
       = Inr (example_request ''GET'' ''/'' [(''content-length'', '' 1_0 '')])
   \<and> content_len (example_request ''GET'' ''/'' [(''content-length'', '' 1_0 '')]) = 10
   \<and> filter is_BodyRead
        (snd (handle_client example_world
           (example_conn (Inr (example_request ''GET'' ''/'' [(''content-length'', '' 1_0 '')])))))
       = [BodyRead 10]
   \<and> content_len (example_request ''GET'' ''/'' [(''content-length'', ''ten'')]) = 0
   \<and> filter is_BodyRead
        (snd (handle_client example_world
           (example_conn (Inr (example_request ''GET'' ''/'' [(''content-length'', ''ten'')])))))
       = []"
proof -
  let ?r1 = "example_request ''GET'' ''/'' [(''content-length'', '' 1_0 '')]"
  let ?r2 = "example_request ''GET'' ''/'' [(''content-length'', ''ten'')]"
  have out: "print_raises (example_conn r) 0 = None" for r
    by (simp add: example_conn_def)
  have sock: "from_socket (example_conn (Inr r)) = Inr r" for r
    by (simp add: example_conn_def)
  have l1: "content_len ?r1 = 10"
    by code_simp
  have l2: "content_len ?r2 = 0"
    by code_simp
  have reach: "reaches_body_step (example_conn r) q" for r q
    by (simp add: reaches_body_step_def example_conn_def)
  have a: "filter is_BodyRead (snd (handle_client example_world (example_conn (Inr ?r1))))
             = [BodyRead 10]"
    using declared_length_read_when_positive [OF out sock, of ?r1 example_world]
    by (simp add: l1 reach)
  have b: "filter is_BodyRead (snd (handle_client example_world (example_conn (Inr ?r2)))) = []"
    using declared_length_read_when_positive [OF out sock, of ?r2 example_world]
    by (simp add: l2)
  show ?thesis
    using out sock l1 l2 a b by blast
qed

text \<open>
  The claim as stated fails on the header \<open>content-length: -5\<close>: the declared length
  \<open>-5\<close> is not greater than 0 and \<open>body.read(-5)\<close> is called. It also fails on a
  request that asks for the interim response and declares 5 bytes when the \<open>send\<close> of
  the interim response raises: nothing is read.
\<close>

theorem negative_declared_length_is_read:
  "content_len (example_request ''GET'' ''/index.html'' [(''content-length'', ''-5'')]) = - 5
   \<and> snd (handle_client example_world
          (example_conn (Inr (example_request ''GET'' ''/index.html''
             [(''content-length'', ''-5'')]))))
     = [Print (NewConnection (''127.0.0.1'', 50000)), FromSocket, BodyRead (- 5),
        Print (RequestBody []), Opened ''/srv/www/index.html'', Send hello_response,
        Closed ''/srv/www/index.html'', SockClose]
   \<and> content_len (example_request ''GET'' ''/index.html''
          [(''expect'', ''100-continue''), (''content-length'', ''5'')]) = 5
   \<and> snd (handle_client example_world
          (broken_conn (Inr (example_request ''GET'' ''/index.html''
             [(''expect'', ''100-continue''), (''content-length'', ''5'')]))))
     = [Print (NewConnection (''127.0.0.1'', 50000)), FromSocket,
        Send (from_status_code 100), Print (FailedToParse ConnectionError),
        Send (from_status_code 404), SockClose]"
  by code_simp




text \<open>
  C6. The claim: whatever makes \<open>open\<close> fail on a candidate under the document root,
  \<open>serve_file\<close> answers 404, and no file descriptor is leaked. Line 134 catches
  \<open>FileNotFoundError\<close> and nothing else. What holds: on \<open>FileNotFoundError\<close>
  \<open>serve_file\<close> sends the 404 response; any other exception of \<open>open\<close> leaves
  \<open>serve_file\<close>, which has sent nothing; in both cases nothing was opened, and a file
  that was opened is closed whatever \<open>send\<close> does. Under \<open>handle_client\<close> the exception
  that left \<open>serve_file\<close> is answered with 404 by the \<open>except Exception\<close> of the
  handler, as long as its log line can be printed.
\<close>

theorem open_failure_outcomes:
  assumes "startswith (candidate (abspath (cwd w) root) p) (abspath (cwd w) root)"
  shows "(open_rb w (candidate (abspath (cwd w) root) p) = Inl FileNotFoundError \<longrightarrow>
            serve_file w c p root tr =
              send c (from_status_code 404)
                (tr @ [OpenFailed (candidate (abspath (cwd w) root) p) FileNotFoundError]))
       \<and> (\<forall>e. open_rb w (candidate (abspath (cwd w) root) p) = Inl e
              \<and> e \<noteq> FileNotFoundError \<longrightarrow>
            serve_file w c p root tr =
              (Inl e, tr @ [OpenFailed (candidate (abspath (cwd w) root) p) e]))
       \<and> filter is_file_access (snd (serve_file w c p root tr))
           = filter is_file_access tr
             @ (case open_rb w (candidate (abspath (cwd w) root) p) of
                  Inl e \<Rightarrow> [OpenFailed (candidate (abspath (cwd w) root) p) e]
                | Inr f \<Rightarrow> [Opened (candidate (abspath (cwd w) root) p),
                            Closed (candidate (abspath (cwd w) root) p)])
       \<and> (\<forall>req e. root = ''www'' \<and> stdout_open c \<and> from_socket c = Inr req
              \<and> req_method req = ''GET'' \<and> path req = p \<and> reaches_method_check c req
              \<and> open_rb w (candidate (abspath (cwd w) root) p) = Inl e
              \<and> e \<noteq> FileNotFoundError \<longrightarrow>
            snd (handle_client w c) =
              Print (NewConnection (client_addr c)) # preamble req
              @ [OpenFailed (candidate (abspath (cwd w) root) p) e,
                 Print (FailedToParse e), Send (from_status_code 404), SockClose])"
proof -
  let ?ap = "candidate (abspath (cwd w) root) p"
  have d: "snd (handle_client w c) =
              Print (NewConnection (client_addr c)) # preamble req
              @ [OpenFailed ?ap e, Print (FailedToParse e), Send (from_status_code 404),
                 SockClose]"
    if "root = ''www''" and "stdout_open c" and "from_socket c = Inr req"
      and "req_method req = ''GET''" and "path req = p" and "reaches_method_check c req"
      and "open_rb w ?ap = Inl e" and "e \<noteq> FileNotFoundError"
    for req e
  proof -
    have p: "print_raises c k = None" for k
      using that(2) by (rule stdout_openD)
    have "handle_try w c [Print (NewConnection (client_addr c))] =
            (Inl e, Print (NewConnection (client_addr c)) # preamble req @ [OpenFailed ?ap e])"
      using handle_try_get [OF that(3,4,6), of w]
            serve_file_open_raises [OF assms that(7,8)] that(1,5)
      by simp
    from handle_client_catch_all [OF p this p] show ?thesis
      by simp
  qed
  show ?thesis
    using d serve_file_missing [OF assms] serve_file_open_raises [OF assms]
          serve_file_file_accesses [OF assms]
    by blast
qed

theorem open_failure_outcomes_witness:
  "startswith (candidate (abspath (cwd example_world) ''www'') ''/missing.txt'')
     (abspath (cwd example_world) ''www'')
   \<and> open_rb example_world (candidate (abspath (cwd example_world) ''www'') ''/missing.txt'')
       = Inl FileNotFoundError
   \<and> serve_file example_world (example_conn (Inl ParseError)) ''/missing.txt'' ''www'' []
       = (Inr (), [OpenFailed ''/srv/www/missing.txt'' FileNotFoundError,
                   Send (from_status_code 404)])"
proof -
  have inside: "startswith (candidate (abspath (cwd example_world) ''www'') ''/missing.txt'')
     (abspath (cwd example_world) ''www'')"
    by code_simp
  have ap: "candidate (abspath (cwd example_world) ''www'') ''/missing.txt''
              = ''/srv/www/missing.txt''"
    by code_simp
  have missing: "open_rb example_world ''/srv/www/missing.txt'' = Inl FileNotFoundError"
    by code_simp
  have "serve_file example_world (example_conn (Inl ParseError)) ''/missing.txt'' ''www'' []
       = (Inr (), [OpenFailed ''/srv/www/missing.txt'' FileNotFoundError,
                   Send (from_status_code 404)])"
    using open_failure_outcomes [OF inside, of "example_conn (Inl ParseError)" "[]",
            THEN conjunct1] missing
    by (simp add: ap send_def example_conn_def)
  then show ?thesis
    using inside missing by (simp add: ap)
qed

text \<open>
  The claim as stated fails on a file that may not be read and on a directory: \<open>open\<close>
  raises \<open>PermissionError\<close> or \<open>IsADirectoryError\<close>, and the outcome of \<open>serve_file\<close>
  is that exception, with no response sent.
\<close>

theorem permission_error_leaves_serve_file:
  "startswith (candidate (abspath (cwd example_world) ''www'') ''/private.txt'')
     (abspath (cwd example_world) ''www'')
   \<and> serve_file example_world (example_conn (Inl ParseError)) ''/private.txt'' ''www'' []
       = (Inl PermissionError, [OpenFailed ''/srv/www/private.txt'' PermissionError])
   \<and> serve_file example_world (example_conn (Inl ParseError)) ''/index.html/..'' ''www'' []
       = (Inl IsADirectoryError, [OpenFailed ''/srv/www'' IsADirectoryError])"
  by code_simp

text \<open>
  C7. The claim: for a parsed request the interim response is sent, before anything
  else, exactly when the \<open>expect\<close> header contains \<open>100-continue\<close>, and the remaining
  steps still run and produce the final response. The first part holds: the response
  100 is sent exactly then, right after the parse. For the second part, once the
  interim response has been sent the run is the run of the same request without its
  \<open>expect\<close> header, with the interim response put in its place: the interim response
  cuts nothing short. That run produces a final response as long as the log lines can
  be printed; it produces none when the \<open>print\<close> of line 103 raises.
\<close>

theorem interim_response_then_remaining_steps:
  assumes "print_raises c 0 = None" and "from_socket c = Inr req"
  shows "(Send (from_status_code 100) \<in> set (snd (handle_client w c)) \<longleftrightarrow> wants_continue req)
       \<and> (wants_continue req \<longrightarrow>
            take 3 (snd (handle_client w c))
              = [Print (NewConnection (client_addr c)), FromSocket,
                 Send (from_status_code 100)])
       \<and> (wants_continue req \<and> send_raises c 0 = None \<longrightarrow>
            handle_client w c = apsnd interim_sent (handle_client w (after_interim c req)))
       \<and> \<not> wants_continue (without_expect req)
       \<and> (wants_continue req \<and> stdout_open c \<longrightarrow>
            filter is_final_send (drop 3 (snd (handle_client w c))) \<noteq> [])"
proof -
  have first: "snd (handle_client w c)
           = [Print (NewConnection (client_addr c)), FromSocket, Send (from_status_code 100)]
             @ drop 3 (snd (handle_client w c))"
    if "wants_continue req"
    using interim_first [OF assms that, of w] by auto
  have a: "Send (from_status_code 100) \<in> set (snd (handle_client w c)) \<longleftrightarrow> wants_continue req"
  proof
    assume "Send (from_status_code 100) \<in> set (snd (handle_client w c))"
    then show "wants_continue req"
      using no_interim_unless_asked [OF assms, of w] by blast
  next
    assume asked: "wants_continue req"
    obtain ev where "snd (handle_client w c)
           = [Print (NewConnection (client_addr c)), FromSocket, Send (from_status_code 100)] @ ev"
      using interim_first [OF assms asked, of w] by blast
    then show "Send (from_status_code 100) \<in> set (snd (handle_client w c))"
      by simp
  qed
  have b: "take 3 (snd (handle_client w c))
              = [Print (NewConnection (client_addr c)), FromSocket,
                 Send (from_status_code 100)]"
    if "wants_continue req"
    using interim_first [OF assms that, of w] by auto
  have c: "handle_client w c = apsnd interim_sent (handle_client w (after_interim c req))"
    if "wants_continue req" and "send_raises c 0 = None"
    using assms that by (rule handle_client_shift)
  have d: "filter is_final_send (drop 3 (snd (handle_client w c))) \<noteq> []"
    if "wants_continue req" and "stdout_open c"
  proof -
    have "filter is_final_send (snd (handle_client w c))
            = filter is_final_send (drop 3 (snd (handle_client w c)))"
      by (subst first [OF that(1)]) simp
    then show ?thesis
      using final_response_sent [OF that(2), of w] by simp
  qed
  show ?thesis
    using a b c d without_expect_no_continue by blast
qed

theorem interim_response_then_remaining_steps_witness:
  "print_raises (example_conn (Inr (example_request ''GET'' ''/index.html''
       [(''expect'', ''100-continue'')]))) 0 = None
   \<and> from_socket (example_conn (Inr (example_request ''GET'' ''/index.html''
       [(''expect'', ''100-continue'')])))
     = Inr (example_request ''GET'' ''/index.html'' [(''expect'', ''100-continue'')])
   \<and> wants_continue (example_request ''GET'' ''/index.html'' [(''expect'', ''100-continue'')])
   \<and> Send (from_status_code 100)
       \<in> set (snd (handle_client example_world
                 (example_conn (Inr (example_request ''GET'' ''/index.html''
                    [(''expect'', ''100-continue'')])))))
   \<and> handle_client example_world
        (example_conn (Inr (example_request ''GET'' ''/index.html''
           [(''expect'', ''100-continue'')])))
     = apsnd interim_sent
         (handle_client example_world
            (after_interim
               (example_conn (Inr (example_request ''GET'' ''/index.html''
                  [(''expect'', ''100-continue'')])))
               (example_request ''GET'' ''/index.html'' [(''expect'', ''100-continue'')])))"
proof -
  let ?req = "example_request ''GET'' ''/index.html'' [(''expect'', ''100-continue'')]"
  have out: "print_raises (example_conn (Inr ?req)) 0 = None"
    by (simp add: example_conn_def)
  have sock: "from_socket (example_conn (Inr ?req)) = Inr ?req"
    by (simp add: example_conn_def)
  have quiet: "send_raises (example_conn (Inr ?req)) 0 = None"
    by (simp add: example_conn_def)
  have wants: "wants_continue ?req"
    by code_simp
  note th = interim_response_then_remaining_steps [OF out sock, of example_world]
  have a: "Send (from_status_code 100)
             \<in> set (snd (handle_client example_world (example_conn (Inr ?req))))"
    using th [THEN conjunct1] wants by blast
  have b: "handle_client example_world (example_conn (Inr ?req))
     = apsnd interim_sent
         (handle_client example_world (after_interim (example_conn (Inr ?req)) ?req))"
    using th [THEN conjunct2, THEN conjunct2, THEN conjunct1] wants quiet by blast
  show ?thesis
    using out sock wants a b by blast
qed

text \<open>
  The claim as stated fails when standard output is lost after the connection line: the
  interim response is sent and the body read, the \<open>print\<close> of line 95 raises, so the
  method check and \<open>serve_file\<close> do not run, and the \<open>print\<close> of line 103 raises, so no
  final response is sent.
\<close>

theorem interim_sent_then_stdout_lost_no_final_response:
  "handle_client example_world
     (lost_stdout_conn (Inr (example_request ''GET'' ''/index.html''
        [(''expect'', ''100-continue''), (''content-length'', ''5'')])))
   = (Inl BrokenPipeError,
      [Print (NewConnection (''127.0.0.1'', 50000)), FromSocket,
       Send (from_status_code 100), BodyRead 5, Print (RequestBody ''bbbbb''),
       Print (FailedToParse BrokenPipeError), SockClose])"
  by code_simp

text \<open>
  C8. The claim: the socket is closed on every exit path of \<open>handle_client\<close>. The
  \<open>print\<close> of line 81 stands before \<open>with client_sock\<close>; when it raises, the function is
  left without the close. Once that line is printed, every run of \<open>handle_client\<close>,
  whether it returns or raises, ends with the close of the socket, and the socket is
  closed once: the trace is some events, none of them a close, followed by the close.
\<close>

theorem handle_client_closes_socket:
  assumes "print_raises c 0 = None"
  shows "\<exists>tr. snd (handle_client w c) = tr @ [SockClose] \<and> SockClose \<notin> set tr"
proof -
  obtain x tr where t: "handle_try w c [Print (NewConnection (client_addr c))] = (x, tr)"
    by (cases "handle_try w c [Print (NewConnection (client_addr c))]")
  have in_tr: "block_event y" if "y \<in> set tr" for y
    using handle_try_events [OF t that] by auto
  show ?thesis
  proof (cases x)
    case (Inl e1)
    obtain x2 tr2 where h: "handle_except c e1 tr = (x2, tr2)"
      by (cases "handle_except c e1 tr")
    have "SockClose \<notin> set tr2"
      using handle_except_events [OF h, of SockClose] in_tr [of SockClose] by auto
    then show ?thesis
      using assms t Inl h by (simp add: handle_client_entered)
  next
    case (Inr u)
    have "SockClose \<notin> set tr"
      using in_tr [of SockClose] by auto
    then show ?thesis
      using assms t Inr by (simp add: handle_client_entered)
  qed
qed

theorem handle_client_closes_socket_witness:
  "print_raises (example_conn (Inr (example_request ''POST'' ''/'' []))) 0 = None
   \<and> (\<exists>tr. snd (handle_client example_world
                (example_conn (Inr (example_request ''POST'' ''/'' [])))) = tr @ [SockClose]
        \<and> SockClose \<notin> set tr)"
proof -
  have p: "print_raises (example_conn (Inr (example_request ''POST'' ''/'' []))) 0 = None"
    by (simp add: example_conn_def)
  show ?thesis
    using handle_client_closes_socket [OF p, of example_world] p by simp
qed

text \<open>
  The claim as stated fails when the \<open>print\<close> of line 81 raises: the exception leaves
  \<open>handle_client\<close>, nothing is sent and the socket is not closed.
\<close>

theorem handle_client_print_raises_socket_left_open:
  "handle_client example_world (no_stdout_conn (Inr (example_request ''GET'' ''/'' [])))
   = (Inl BrokenPipeError, [Print (NewConnection (''127.0.0.1'', 50000))])"
  by code_simp

text \<open>
  C9. The claim: after construction the queue is a bounded FIFO of capacity
  \<open>worker_count * 8\<close>, and the \<open>put\<close> of the accept loop blocks on a full queue and never
  drops an accepted connection. What holds, for a positive \<open>worker_count\<close>: the queue
  built by the constructor is empty and has the bound \<open>worker_count * 8\<close>, equal to
  \<open>worker_backlog\<close>. Whatever the accept loop and the workers have done, the queue keeps
  that bound and never holds more items; the \<open>put\<close> of the accept loop blocks exactly
  when the queue holds \<open>worker_count * 8\<close> connections, and otherwise appends the
  connection at the end (it has no outcome that refuses the connection). Every accepted
  connection is one a worker has taken, one in the queue, the one whose \<open>put\<close> is
  waiting, or the one abandoned, in the order of acceptance; none is abandoned while the
  loop runs; and a waiting \<open>put\<close> completes at the next \<open>get\<close> of a worker: the connection
  is delayed, not lost.
\<close>

theorem connection_queue_bounded_fifo:
  assumes "0 < n"
  shows "worker_backlog (HTTPServer_init h p n) = n * 8
       \<and> maxsize (connection_queue (HTTPServer_init h p n)) = n * 8
       \<and> items (connection_queue (HTTPServer_init h p n)) = []
       \<and> maxsize (shared (accept_loop (HTTPServer_init h p n) steps)) = n * 8
       \<and> int (length (items (shared (accept_loop (HTTPServer_init h p n) steps)))) \<le> n * 8
       \<and> (put (shared (accept_loop (HTTPServer_init h p n) steps)) c = Blocks
            \<longleftrightarrow> int (length (items (shared (accept_loop (HTTPServer_init h p n) steps)))) = n * 8)
       \<and> (\<forall>q. put (shared (accept_loop (HTTPServer_init h p n) steps)) c = Returns q
            \<longrightarrow> items q = items (shared (accept_loop (HTTPServer_init h p n) steps)) @ [c])
       \<and> accepted (accept_loop (HTTPServer_init h p n) steps)
           = taken (accept_loop (HTTPServer_init h p n) steps)
             @ pending (accept_loop (HTTPServer_init h p n) steps)
             @ abandoned (accept_loop (HTTPServer_init h p n) steps)
       \<and> (\<not> ended (accept_loop (HTTPServer_init h p n) steps)
            \<longrightarrow> abandoned (accept_loop (HTTPServer_init h p n) steps) = [])
       \<and> (\<forall>b. blocked (accept_loop (HTTPServer_init h p n) steps) = Some b \<longrightarrow>
               blocked (accept_loop (HTTPServer_init h p n) (steps @ [WorkerGet])) = None
               \<and> items (shared (accept_loop (HTTPServer_init h p n) (steps @ [WorkerGet])))
                   = tl (items (shared (accept_loop (HTTPServer_init h p n) steps))) @ [b])"
proof -
  let ?s = "accept_loop (HTTPServer_init h p n) steps"
  have cap: "0 < n * 8"
    using assms by simp
  have inv: "queue_inv (n * 8) ?s"
    using assms by (rule queue_inv_accept_loop)
  have a: "worker_backlog (HTTPServer_init h p n) = n * 8
       \<and> maxsize (connection_queue (HTTPServer_init h p n)) = n * 8
       \<and> items (connection_queue (HTTPServer_init h p n)) = []"
    by (simp add: HTTPServer_init_def Queue_def)
  have b: "maxsize (shared ?s) = n * 8 \<and> int (length (items (shared ?s))) \<le> n * 8
       \<and> accepted ?s = taken ?s @ pending ?s @ abandoned ?s
       \<and> (\<not> ended ?s \<longrightarrow> abandoned ?s = [])"
    using inv by (auto simp: queue_inv_def)
  have c: "put (shared ?s) c = Blocks \<longleftrightarrow> int (length (items (shared ?s))) = n * 8"
    using b cap by (auto simp: put_def)
  have d: "\<forall>q. put (shared ?s) c = Returns q \<longrightarrow> items q = items (shared ?s) @ [c]"
    by (auto simp: put_def)
  have e: "\<forall>b. blocked ?s = Some b \<longrightarrow>
               blocked (accept_loop (HTTPServer_init h p n) (steps @ [WorkerGet])) = None
               \<and> items (shared (accept_loop (HTTPServer_init h p n) (steps @ [WorkerGet])))
                   = tl (items (shared ?s)) @ [b]"
    using blocked_put_completes [OF cap inv] by (simp add: accept_loop_snoc)
  show ?thesis
    using a b c d e by simp
qed

theorem connection_queue_bounded_fifo_witness:
  "0 < (1::int)
   \<and> worker_backlog (HTTPServer_init ''127.0.0.1'' 8080 1) = 8
   \<and> maxsize (shared (accept_loop (HTTPServer_init ''127.0.0.1'' 8080 1)
         [Accept (peer 1), WorkerGet, Accept (peer 2)])) = 8
   \<and> accepted (accept_loop (HTTPServer_init ''127.0.0.1'' 8080 1)
         [Accept (peer 1), WorkerGet, Accept (peer 2)])
       = taken (accept_loop (HTTPServer_init ''127.0.0.1'' 8080 1)
           [Accept (peer 1), WorkerGet, Accept (peer 2)])
         @ pending (accept_loop (HTTPServer_init ''127.0.0.1'' 8080 1)
           [Accept (peer 1), WorkerGet, Accept (peer 2)])
         @ abandoned (accept_loop (HTTPServer_init ''127.0.0.1'' 8080 1)
           [Accept (peer 1), WorkerGet, Accept (peer 2)])"
  using connection_queue_bounded_fifo [of 1 "''127.0.0.1''" 8080
          "[Accept (peer 1), WorkerGet, Accept (peer 2)]"]
  by simp

text \<open>
  The claim as stated fails in two places. With \<open>worker_count = 1\<close> the queue is full
  after eight connections and the \<open>put\<close> of the ninth waits; a \<open>KeyboardInterrupt\<close> then
  ends the loop (lines 42 and 43) and the ninth connection, accepted, is never enqueued,
  whatever the workers take afterwards. With \<open>worker_count = 0\<close> the bound is 0, which
  \<open>Queue\<close> takes as no bound: the queue holds more than \<open>worker_count * 8\<close> connections.
\<close>

theorem interrupt_abandons_blocked_connection:
  "map client_addr
     (accepted (accept_loop (HTTPServer_init ''127.0.0.1'' 8080 1)
        [Accept (peer 1), Accept (peer 2), Accept (peer 3), Accept (peer 4),
         Accept (peer 5), Accept (peer 6), Accept (peer 7), Accept (peer 8),
         Accept (peer 9), Interrupt, WorkerGet]))
     = [(''127.0.0.1'', 50001), (''127.0.0.1'', 50002), (''127.0.0.1'', 50003),
        (''127.0.0.1'', 50004), (''127.0.0.1'', 50005), (''127.0.0.1'', 50006),
        (''127.0.0.1'', 50007), (''127.0.0.1'', 50008), (''127.0.0.1'', 50009)]
   \<and> map client_addr
     (abandoned (accept_loop (HTTPServer_init ''127.0.0.1'' 8080 1)
        [Accept (peer 1), Accept (peer 2), Accept (peer 3), Accept (peer 4),
         Accept (peer 5), Accept (peer 6), Accept (peer 7), Accept (peer 8),
         Accept (peer 9), Interrupt, WorkerGet]))
     = [(''127.0.0.1'', 50009)]
   \<and> map client_addr
     (pending (accept_loop (HTTPServer_init ''127.0.0.1'' 8080 1)
        [Accept (peer 1), Accept (peer 2), Accept (peer 3), Accept (peer 4),
         Accept (peer 5), Accept (peer 6), Accept (peer 7), Accept (peer 8),
         Accept (peer 9), Interrupt, WorkerGet]))
     = [(''127.0.0.1'', 50002), (''127.0.0.1'', 50003),
        (''127.0.0.1'', 50004), (''127.0.0.1'', 50005), (''127.0.0.1'', 50006),
        (''127.0.0.1'', 50007), (''127.0.0.1'', 50008)]
   \<and> maxsize (connection_queue (HTTPServer_init ''127.0.0.1'' 8080 0)) = 0
   \<and> map client_addr
     (items (shared (accept_loop (HTTPServer_init ''127.0.0.1'' 8080 0)
        [Accept (peer 1), Accept (peer 2)])))
     = [(''127.0.0.1'', 50001), (''127.0.0.1'', 50002)]"
  by code_simp

text \<open>
  C10. \<open>run\<close> starts by setting the flag, so a \<open>stop()\<close> made before \<open>run()\<close> is lost:
  the run after \<open>stop()\<close> is the run without it, the loop is entered (with nothing to
  do the worker is \<open>Waiting\<close>, not \<open>Exited\<close>), and a dequeued connection is served.
\<close>

theorem stop_before_run_is_overwritten:
  "run w (stop wk) ts = run w wk ts
   \<and> fst (run w (stop wk) []) = Waiting
   \<and> run w (stop wk) (Got c # ts) =
       (case serve_one w c of
          (Inl e, tr) \<Rightarrow> (Died e, wk\<lparr>running := True\<rparr>, tr)
        | (Inr u, tr) \<Rightarrow> while_running w (wk\<lparr>running := True\<rparr>) ts tr)"
  by (simp add: run_def stop_def split: prod.splits sum.splits)

theorem stop_before_run_is_overwritten_witness:
  "fst (run example_world (stop HTTPWorker_init) []) = Waiting
   \<and> run example_world (stop HTTPWorker_init) [Empty] = run example_world HTTPWorker_init [Empty]"
  using stop_before_run_is_overwritten [of example_world HTTPWorker_init "[Empty]"]
        stop_before_run_is_overwritten [of example_world HTTPWorker_init "[]"]
  by simp

end
